theory Spec2Isabelle
  imports Main "HOL-Library.AList"
begin

section \<open>JavaScript values, exceptions and the object heap\<close>

text \<open>
  The middleware is JavaScript: objects and arrays are shared by reference and mutated in
  place, a missing property reads as \<^verbatim>\<open>undefined\<close>, and reading a property of
  \<^verbatim>\<open>undefined\<close> throws. The model keeps all three. Objects that the code shares
  and mutates live in an explicit heap, addressed by references; a property that may be
  missing is an \<open>option\<close>; every function that can throw returns the exception together
  with the state reached at the throw (mutations made before a throw stay).

  The tables of the handler are plain objects used as maps, and a plain object inherits
  the members of \<^verbatim>\<open>Object.prototype\<close>: \<^verbatim>\<open>table[key]\<close> under a key the table
  does not own, but which names such a member, reads as that member, a truthy value.
  A table is modelled as the map of its own properties, and the inherited members are
  added wherever the code reads a table under a key that a remote peer chooses: the id of
  an IQ stanza, an extension id, a raw feature. The other keys are fingerprints
  \<^verbatim>\<open>node#ver\<close>, which contain \<^verbatim>\<open>'#'\<close>, the ids \<^verbatim>\<open>caps-N\<close> and
  \<^verbatim>\<open>'undefined'\<close>; no member of \<^verbatim>\<open>Object.prototype\<close> has such a name.
  Listeners of the emitted event are taken not to throw.
\<close>

datatype js_error = TypeError | SyntaxError

type_synonym 'a res = "js_error option \<times> 'a"

type_synonym ref = nat

text \<open>String coercion of a possibly undefined string, as in \<^verbatim>\<open>a + '#' + b\<close> and in
  property keys.\<close>

definition js_str :: "string option \<Rightarrow> string" where
  "js_str v = (case v of None \<Rightarrow> ''undefined'' | Some s \<Rightarrow> s)"

text \<open>
  The members of \<^verbatim>\<open>Object.prototype\<close>: eleven functions and the accessor
  \<^verbatim>\<open>__proto__\<close>, which reads as \<^verbatim>\<open>Object.prototype\<close> itself.
\<close>

definition prototype_functions :: "string list" where
  "prototype_functions =
     [''constructor'', ''toString'', ''toLocaleString'', ''valueOf'', ''hasOwnProperty'',
      ''isPrototypeOf'', ''propertyIsEnumerable'', ''__defineGetter__'', ''__defineSetter__'',
      ''__lookupGetter__'', ''__lookupSetter__'']"

definition inherited :: "string \<Rightarrow> bool" where
  "inherited k = (k \<in> set prototype_functions \<or> k = ''__proto__'')"

text \<open>
  An element of a raw feature array: a string, or \<^verbatim>\<open>undefined\<close> (a feature without
  \<^verbatim>\<open>var\<close>, or the result of concatenating a missing array), or the \<^verbatim>\<open>null\<close>
  that a JSON round trip makes of it; or, concatenated from a table read under an inherited
  key, a built-in function (given by its name) or an object without properties of its own.
  \<open>key_of\<close> is the string the element becomes as a property key.
\<close>

datatype elem = Str string | Undefined | Null | Function string | Object

fun key_of :: "elem \<Rightarrow> string" where
  "key_of (Str s) = s"
| "key_of Undefined = ''undefined''"
| "key_of Null = ''null''"
| "key_of (Function f) = ''function '' @ f @ ''() { [native code] }''"
| "key_of Object = ''[object Object]''"

text \<open>The member of \<^verbatim>\<open>Object.prototype\<close> with the inherited name \<open>k\<close>;
  \<^verbatim>\<open>constructor\<close> is the function \<^verbatim>\<open>Object\<close>.\<close>

definition member :: "string \<Rightarrow> elem" where
  "member k =
     (if k = ''__proto__'' then Object
      else Function (if k = ''constructor'' then ''Object'' else k))"

text \<open>
  The request counter is a Number. \<^verbatim>\<open>this._iqCount++\<close> adds one exactly as long as
  the count is below \<^verbatim>\<open>2^53 = 9007199254740992\<close>; there the sum is rounded back to
  \<^verbatim>\<open>2^53\<close>, and the count stays. It starts at 0, so it never exceeds that number.
\<close>

definition js_succ :: "nat \<Rightarrow> nat" where
  "js_succ n = (if n < 9007199254740992 then Suc n else n)"

text \<open>Decimal rendering of the request counter, as in \<^verbatim>\<open>'caps-' + this._iqCount\<close>.\<close>

definition digit :: "nat \<Rightarrow> char" where
  "digit d = ''0123456789'' ! d"

fun dec :: "nat \<Rightarrow> string" where
  "dec n = (if n < 10 then [digit n] else dec (n div 10) @ [digit (n mod 10)])"

declare dec.simps [simp del]

text \<open>The capability object built from a discovery response. Its raw feature array is an
  object of its own (the code mutates such arrays in place), so the field is generic:
  a reference for an object on the heap, a list for a plain value.\<close>

record 'r capabilities =
  node :: "string option"
  rawFeatures :: 'r
  features :: "(string \<times> bool) list"
  clientName :: "string option"

text \<open>The \<^verbatim>\<open>caps\<close> object that the parser attaches to a presence stanza.\<close>

record caps_info =
  c_node :: "string option"
  c_ver :: "string option"
  c_hash :: "string option"
  c_ext :: "string list option"

text \<open>Attributes of the \<^verbatim>\<open>c\<close> child of a presence stanza.\<close>

record c_attrs =
  a_node :: "string option"
  a_ver :: "string option"
  a_hash :: "string option"
  a_ext :: "string option"

record presence =
  from_jid :: string
  c_child :: "c_attrs option"
  caps :: "caps_info option"

text \<open>The \<^verbatim>\<open>query\<close> child of an IQ stanza in the disco#info namespace: its node
  attribute, the name attribute of its identity child (if there is one), and the
  \<^verbatim>\<open>var\<close> attributes of its feature children.\<close>

record query =
  q_node :: "string option"
  q_identity :: "string option option"
  q_features :: "elem list"

record iq =
  iq_id :: "string option"
  iq_type :: "string option"
  iq_query :: "query option"
  capabilities :: "ref option"

text \<open>A pending-buddy object: \<^verbatim>\<open>{ jid, pendingExts, originalPresence }\<close>. The entries
  of \<open>pendingExts\<close> are the pending-extension arrays themselves (by reference).\<close>

record buddy =
  jid :: string
  pendingExts :: "ref list"
  originalPresence :: presence

text \<open>The heap: capability objects, arrays of raw features, pending-buddy objects, and the
  pending-extension arrays. An element of such an array is a pending-buddy object, or
  \<open>None\<close>: some value that is no pending-buddy object (\<^verbatim>\<open>undefined\<close>, when
  \<^verbatim>\<open>_pendingBuddies\<close> had no entry for the jid). \<open>heapTop\<close> is the next free address;
  allocation only moves it up.\<close>

record js_heap =
  capsObjs :: "ref \<Rightarrow> ref capabilities"
  strArrays :: "ref \<Rightarrow> elem list"
  buddyObjs :: "ref \<Rightarrow> buddy"
  refArrays :: "ref \<Rightarrow> ref option list"
  heapTop :: nat

definition new_strArray :: "elem list \<Rightarrow> 'a js_heap_scheme \<Rightarrow> ref \<times> 'a js_heap_scheme" where
  "new_strArray xs h =
     (heapTop h, h\<lparr>strArrays := (strArrays h)(heapTop h := xs), heapTop := Suc (heapTop h)\<rparr>)"

definition new_capsObj ::
  "ref capabilities \<Rightarrow> 'a js_heap_scheme \<Rightarrow> ref \<times> 'a js_heap_scheme" where
  "new_capsObj c h =
     (heapTop h, h\<lparr>capsObjs := (capsObjs h)(heapTop h := c), heapTop := Suc (heapTop h)\<rparr>)"

definition new_buddy :: "buddy \<Rightarrow> 'a js_heap_scheme \<Rightarrow> ref \<times> 'a js_heap_scheme" where
  "new_buddy b h =
     (heapTop h, h\<lparr>buddyObjs := (buddyObjs h)(heapTop h := b), heapTop := Suc (heapTop h)\<rparr>)"

definition new_refArray :: "ref option list \<Rightarrow> 'a js_heap_scheme \<Rightarrow> ref \<times> 'a js_heap_scheme" where
  "new_refArray xs h =
     (heapTop h, h\<lparr>refArrays := (refArrays h)(heapTop h := xs), heapTop := Suc (heapTop h)\<rparr>)"

section \<open>util.js\<close>

text \<open>
  \<^verbatim>\<open>removeDuplicates\<close> walks the array from its last index down to 0 with a table of the
  keys seen, and splices out every element whose key was seen already. The table is a
  plain object: \<^verbatim>\<open>seen[data[i]]\<close> is truthy also for a key that names an inherited
  member, so such an element is spliced out even when it occurs once.
  \<open>removeDuplicates_loop\<close> is that loop; its first argument is \<open>i + 1\<close>, its second the
  keys set in \<^verbatim>\<open>seen\<close>.
\<close>

fun removeDuplicates_loop :: "nat \<Rightarrow> string list \<Rightarrow> elem list \<Rightarrow> elem list" where
  "removeDuplicates_loop 0 seen data = data"
| "removeDuplicates_loop (Suc i) seen data =
     (if key_of (data ! i) \<in> set seen \<or> inherited (key_of (data ! i))
      then removeDuplicates_loop i seen (take i data @ drop (Suc i) data)
      else removeDuplicates_loop i (key_of (data ! i) # seen) data)"

definition removeDuplicates :: "ref \<Rightarrow> 'a js_heap_scheme \<Rightarrow> 'a js_heap_scheme" where
  "removeDuplicates a h =
     h\<lparr>strArrays := (strArrays h)
          (a := removeDuplicates_loop (length (strArrays h a)) [] (strArrays h a))\<rparr>"

text \<open>
  \<^verbatim>\<open>deepClone\<close> is \<^verbatim>\<open>JSON.parse(JSON.stringify(data))\<close>: a new object with a new
  array; an \<^verbatim>\<open>undefined\<close> array element and a function come back as \<^verbatim>\<open>null\<close>,
  an object without own properties as another one, an undefined property is dropped and
  so still reads as undefined. Of \<^verbatim>\<open>undefined\<close> itself, \<^verbatim>\<open>JSON.parse\<close> throws a
  SyntaxError.
\<close>

fun json_elem :: "elem \<Rightarrow> elem" where
  "json_elem (Str s) = Str s"
| "json_elem Undefined = Null"
| "json_elem Null = Null"
| "json_elem (Function f) = Null"
| "json_elem Object = Object"

definition deepClone :: "ref option \<Rightarrow> 'a js_heap_scheme \<Rightarrow> (ref \<times> 'a js_heap_scheme) res" where
  "deepClone data h =
     (case data of
        None \<Rightarrow> (Some SyntaxError, (0, h))
      | Some r \<Rightarrow>
          (let (a, h1) = new_strArray (map json_elem (strArrays h (rawFeatures (capsObjs h r)))) h
           in (None, new_capsObj ((capsObjs h r)\<lparr>rawFeatures := a\<rparr>) h1)))"

section \<open>cache/memory.js\<close>

record memoryCache =
  capsCache :: "string \<Rightarrow> ref option"
  m_extCache :: "string \<Rightarrow> (string \<Rightarrow> ref option) option"

definition MemoryCache :: memoryCache where
  "MemoryCache = \<lparr>capsCache = (\<lambda>_. None), m_extCache = (\<lambda>_. None)\<rparr>"

definition getCapabilities :: "memoryCache \<Rightarrow> string \<Rightarrow> ref option" where
  "getCapabilities m n = capsCache m n"

definition saveCapabilities :: "memoryCache \<Rightarrow> string \<Rightarrow> ref option \<Rightarrow> memoryCache" where
  "saveCapabilities m n c = m\<lparr>capsCache := (capsCache m)(n := c)\<rparr>"

definition saveExtension :: "memoryCache \<Rightarrow> string \<Rightarrow> string \<Rightarrow> ref option \<Rightarrow> memoryCache" where
  "saveExtension m n e fs =
     (let inner = (case m_extCache m n of None \<Rightarrow> (\<lambda>_. None) | Some i \<Rightarrow> i)
      in m\<lparr>m_extCache := (m_extCache m)(n := Some (inner(e := fs)))\<rparr>)"

text \<open>\<^verbatim>\<open>getExtensions\<close> hands its callback the cached extensions and the list of the
  uncached ones.\<close>

definition getExtensions ::
  "memoryCache \<Rightarrow> string \<Rightarrow> string list \<Rightarrow> (string \<times> ref) list \<times> string list" where
  "getExtensions m n exts =
     (let extCache = (case m_extCache m n of None \<Rightarrow> (\<lambda>_. None) | Some i \<Rightarrow> i)
      in (concat (map (\<lambda>e. case extCache e of None \<Rightarrow> [] | Some fs \<Rightarrow> [(e, fs)]) exts),
          filter (\<lambda>e. extCache e = None) exts))"

section \<open>middleware/capabilitiesParser.js\<close>

text \<open>Simple names for commonly used XMPP features, in the order of the source table.\<close>

definition commonFeatures :: "(string \<times> string) list" where
  "commonFeatures =
    [(''jabber:iq:last'', ''lastActivity''),
     (''http://jabber.org/protocol/muc'', ''muc''),
     (''http://jabber.org/protocol/ibb'', ''byteStreams''),
     (''http://jabber.org/protocol/xhtml-im'', ''xhtml''),
     (''urn:xmpp:avatar:metadata+notify'', ''avatar''),
     (''jabber:iq:version'', ''version''),
     (''http://jabber.org/protocol/si/profile/file-transfer'', ''siFileTransfer''),
     (''http://jabber.org/protocol/mood+notify'', ''mood''),
     (''urn:xmpp:jingle:apps:rtp:0'', ''rtpv0''),
     (''urn:xmpp:jingle:apps:rtp:1'', ''rtpv1''),
     (''urn:xmpp:jingle:apps:rtp:audio'', ''rtpaudio''),
     (''urn:xmpp:jingle:apps:rtp:video'', ''rtpvideo''),
     (''urn:xmpp:attention:0'', ''attention''),
     (''urn:xmpp:bob'', ''bob''),
     (''http://www.google.com/xmpp/protocol/camera/v1'', ''googleCamera''),
     (''http://www.google.com/xmpp/protocol/video/v1'', ''googleVideo''),
     (''http://www.google.com/xmpp/protocol/voice/v1'', ''googleVoice''),
     (''google:mail:notify'', ''gmailNotify'')]"

text \<open>
  The result object as the list of its properties in insertion order: first every simple
  name is set to false, then the name of every raw feature found in the table is set to
  true. \<^verbatim>\<open>commonFeatures[rawFeature]\<close> also finds the inherited members: for a raw
  feature that names one, the member, as a string, becomes a property of the result.
\<close>

definition parseCommonFeatures :: "elem list \<Rightarrow> (string \<times> bool) list" where
  "parseCommonFeatures raw =
     fold (\<lambda>rawFeature fs.
             case map_of commonFeatures (key_of rawFeature) of
               None \<Rightarrow>
                 if inherited (key_of rawFeature)
                 then AList.update (key_of (member (key_of rawFeature))) True fs
                 else fs
             | Some name \<Rightarrow> AList.update name True fs)
          raw
          (fold (\<lambda>(uri, name) fs. AList.update name False fs) commonFeatures [])"

text \<open>\<^verbatim>\<open>s.split(' ')\<close>: the pieces between single spaces; the empty string gives one
  empty piece.\<close>

fun split_space :: "string \<Rightarrow> string list" where
  "split_space [] = [[]]"
| "split_space (ch # cs) =
     (if ch = CHR '' '' then [] # split_space cs
      else (case split_space cs of [] \<Rightarrow> [[ch]] | w # ws \<Rightarrow> (ch # w) # ws))"

text \<open>The parser's \<^verbatim>\<open>handlePresence\<close>: without a \<^verbatim>\<open>c\<close> child the stanza is left
  alone; otherwise \<^verbatim>\<open>stanza.caps\<close> is set, with
  \<^verbatim>\<open>ext: (c.attrs.ext || '').split(' ')\<close>.\<close>

definition handlePresence :: "presence \<Rightarrow> presence" where
  "handlePresence stanza =
     (case c_child stanza of
        None \<Rightarrow> stanza
      | Some c \<Rightarrow>
          stanza\<lparr>caps := Some \<lparr>c_node = a_node c, c_ver = a_ver c, c_hash = a_hash c,
                    c_ext = Some (split_space (case a_ext c of None \<Rightarrow> [] | Some e \<Rightarrow> e))\<rparr>\<rparr>)"

text \<open>
  The parser's \<^verbatim>\<open>handleIQ\<close>. It returns without touching the stanza when there is no
  disco#info query, when the id is neither \<^verbatim>\<open>'caps'\<close> nor starts with
  \<^verbatim>\<open>'caps-ext-'\<close>, and when the type is \<^verbatim>\<open>'error'\<close>. An undefined id makes
  \<^verbatim>\<open>stanza.attrs.id.substr\<close> throw. Otherwise it builds the capability object (a new
  object with a new array) and sets \<^verbatim>\<open>stanza.capabilities\<close>; that last step is
  \<open>attach_capabilities\<close>, which takes the finished content of the object.
\<close>

definition attach_capabilities ::
  "elem list capabilities \<Rightarrow> iq \<Rightarrow> 'a js_heap_scheme \<Rightarrow> iq \<times> 'a js_heap_scheme" where
  "attach_capabilities c stanza h =
     (let (a, h1) = new_strArray (rawFeatures c) h;
          (r, h2) = new_capsObj
             \<lparr>node = node c, rawFeatures = a, features = features c,
              clientName = clientName c\<rparr> h1
      in (stanza\<lparr>capabilities := Some r\<rparr>, h2))"

definition handleIQ :: "iq \<Rightarrow> 'a js_heap_scheme \<Rightarrow> (iq \<times> 'a js_heap_scheme) res" where
  "handleIQ stanza h =
     (case iq_query stanza of
        None \<Rightarrow> (None, (stanza, h))
      | Some q \<Rightarrow>
          (case iq_id stanza of
             None \<Rightarrow> (Some TypeError, (stanza, h))
           | Some i \<Rightarrow>
               if i \<noteq> ''caps'' \<and> take 9 i \<noteq> ''caps-ext-'' then (None, (stanza, h))
               else if iq_type stanza = Some ''error'' then (None, (stanza, h))
               else
                 (None, attach_capabilities
                    \<lparr>node = q_node q, rawFeatures = q_features q,
                     features = parseCommonFeatures (q_features q),
                     clientName = (case q_identity q of None \<Rightarrow> None | Some n \<Rightarrow> n)\<rparr>
                    stanza h)))"

section \<open>middleware/capabilities.js\<close>

text \<open>An entry of \<^verbatim>\<open>_iqRequests\<close>: the extra data given at send time
  (\<^verbatim>\<open>type\<close>, \<^verbatim>\<open>ext\<close>) and the \<^verbatim>\<open>node\<close>, \<^verbatim>\<open>ver\<close> and
  \<^verbatim>\<open>fullNode\<close> that \<^verbatim>\<open>_sendDiscoQuery\<close> adds.\<close>

record request =
  r_type :: string
  r_ext :: "string option"
  r_node :: "string option"
  r_ver :: "string option"
  r_fullNode :: "string option"

text \<open>
  What \<^verbatim>\<open>this._iqRequests[id]\<close> is for an id that names an inherited member: a
  function, or \<^verbatim>\<open>Object.prototype\<close>. Read as a request it has none of the
  properties; its \<^verbatim>\<open>type\<close> is undefined and so not \<^verbatim>\<open>'ext'\<close>.
\<close>

definition prototype_member :: request where
  "prototype_member =
     \<lparr>r_type = [], r_ext = None, r_node = None, r_ver = None, r_fullNode = None\<rparr>"

text \<open>An entry of \<^verbatim>\<open>_pending\<close>.\<close>

record pending_caps =
  p_node :: "string option"
  p_ver :: "string option"
  buddies :: "string list"

text \<open>An IQ-get handed to \<^verbatim>\<open>stanza.connection.send\<close>: recipient, id and the node of
  its disco#info query.\<close>

record sent_iq =
  to_jid :: string
  sent_id :: string
  sent_node :: string

text \<open>
  The \<^verbatim>\<open>Handler\<close> object with the heap its fields point into, and its two outputs:
  the stanzas sent on the connection and the \<^verbatim>\<open>'capabilities'\<close> events emitted
  (jid and the capability object passed to the listeners), both in order.
\<close>

record handler = js_heap +
  cache :: "string \<Rightarrow> ref option"
  extCache :: "string \<Rightarrow> (string \<Rightarrow> ref option) option"
  pending :: "string \<Rightarrow> pending_caps option"
  pendingExt :: "string \<Rightarrow> (string \<Rightarrow> ref option) option"
  pendingBuddies :: "string \<Rightarrow> ref option"
  iqRequests :: "string \<Rightarrow> request option"
  iqCount :: nat
  sent :: "sent_iq list"
  emitted :: "(string \<times> ref) list"

definition Handler :: handler where
  "Handler =
     \<lparr>capsObjs = (\<lambda>_. \<lparr>node = None, rawFeatures = 0, features = [], clientName = None\<rparr>),
      strArrays = (\<lambda>_. []),
      buddyObjs = (\<lambda>_. \<lparr>jid = [], pendingExts = [],
                          originalPresence = \<lparr>from_jid = [], c_child = None, caps = None\<rparr>\<rparr>),
      refArrays = (\<lambda>_. []),
      heapTop = 0,
      cache = (\<lambda>_. None), extCache = (\<lambda>_. None), pending = (\<lambda>_. None),
      pendingExt = (\<lambda>_. None), pendingBuddies = (\<lambda>_. None), iqRequests = (\<lambda>_. None),
      iqCount = 0, sent = [], emitted = []\<rparr>"

text \<open>\<^verbatim>\<open>array.forEach(callback)\<close> with a callback that may throw: the first exception
  ends the loop.\<close>

fun forEach :: "('a \<Rightarrow> 's \<Rightarrow> 's res) \<Rightarrow> 'a list \<Rightarrow> 's \<Rightarrow> 's res" where
  "forEach f [] s = (None, s)"
| "forEach f (x # xs) s =
     (case f x s of (None, s') \<Rightarrow> forEach f xs s' | (Some e, s') \<Rightarrow> (Some e, s'))"

definition fullNode_of :: "caps_info \<Rightarrow> string" where
  "fullNode_of c = js_str (c_node c) @ ''#'' @ js_str (c_ver c)"

text \<open>\<^verbatim>\<open>_sendDiscoQuery(stanza, node, extraData)\<close>; returns the id of the request.\<close>

definition Handler_sendDiscoQuery ::
  "presence \<Rightarrow> string \<Rightarrow> request \<Rightarrow> handler \<Rightarrow> (string \<times> handler) res" where
  "Handler_sendDiscoQuery stanza qnode extraData s =
     (let s1 = s\<lparr>iqCount := js_succ (iqCount s)\<rparr>;
          i = ''caps-'' @ dec (iqCount s1);
          s2 = s1\<lparr>iqRequests := (iqRequests s1)(i \<mapsto> extraData)\<rparr>
      in case caps stanza of
           None \<Rightarrow> (Some TypeError, (i, s2))
         | Some c \<Rightarrow>
             (let s3 = s2\<lparr>iqRequests := (iqRequests s2)
                         (i \<mapsto> extraData\<lparr>r_node := c_node c, r_ver := c_ver c,
                                         r_fullNode := Some (fullNode_of c)\<rparr>)\<rparr>
              in (None, (i, s3\<lparr>sent := sent s3 @
                    [\<lparr>to_jid = from_jid stanza, sent_id = i, sent_node = qnode\<rparr>]\<rparr>))))"

text \<open>
  \<^verbatim>\<open>_getExtensionFromPresence(stanza, ext)\<close>. After the \<^verbatim>\<open>if\<close>,
  \<^verbatim>\<open>this._pendingExt[fullNode][ext]\<close> is the array found or the one just created. For
  an extension id that names an inherited member and has no entry of its own, the test
  finds the member, nothing is sent, and the member has no \<^verbatim>\<open>push\<close>: a TypeError.
\<close>

definition Handler_getExtensionFromPresence ::
  "presence \<Rightarrow> string \<Rightarrow> handler \<Rightarrow> handler res" where
  "Handler_getExtensionFromPresence stanza ext s =
     (case caps stanza of
        None \<Rightarrow> (Some TypeError, s)
      | Some c \<Rightarrow>
          (let fullNode = fullNode_of c;
               pendingBuddy = pendingBuddies s (from_jid stanza)
           in case pendingExt s fullNode of
                None \<Rightarrow> (Some TypeError, s)
              | Some m \<Rightarrow>
                  (let (e, a, s3) =
                         (case m ext of
                            Some a \<Rightarrow> (None, a, s)
                          | None \<Rightarrow>
                              if inherited ext then (Some TypeError, 0, s)
                              else
                              (let (a, s1) = new_refArray [] s;
                                   s2 = s1\<lparr>pendingExt := (pendingExt s1)(fullNode \<mapsto> m(ext \<mapsto> a))\<rparr>;
                                   (e, _, s3) = Handler_sendDiscoQuery stanza
                                      (js_str (c_node c) @ ''#'' @ ext)
                                      \<lparr>r_type = ''ext'', r_ext = Some ext, r_node = None,
                                       r_ver = None, r_fullNode = None\<rparr> s2
                               in (e, a, s3)))
                   in case e of
                        Some err \<Rightarrow> (Some err, s3)
                      | None \<Rightarrow>
                          (let s4 = s3\<lparr>refArrays := (refArrays s3)
                                     (a := refArrays s3 a @ [pendingBuddy])\<rparr>
                           in case pendingBuddy of
                                None \<Rightarrow> (Some TypeError, s4)
                              | Some b \<Rightarrow>
                                  (None, s4\<lparr>buddyObjs := (buddyObjs s4)
                                     (b := (buddyObjs s4 b)
                                        \<lparr>pendingExts := pendingExts (buddyObjs s4 b) @ [a]\<rparr>)\<rparr>)))))"

text \<open>\<^verbatim>\<open>_getCapabilitiesFromPresence(stanza)\<close>.\<close>

definition Handler_getCapabilitiesFromPresence :: "presence \<Rightarrow> handler \<Rightarrow> handler res" where
  "Handler_getCapabilitiesFromPresence stanza s =
     (case caps stanza of
        None \<Rightarrow> (Some TypeError, s)
      | Some c \<Rightarrow>
          (let fullNode = fullNode_of c;
               (e, s2) =
                  (case pending s fullNode of
                     Some p \<Rightarrow> (None, s)
                   | None \<Rightarrow>
                       (let s1 = s\<lparr>pending := (pending s)
                                  (fullNode \<mapsto> \<lparr>p_node = c_node c, p_ver = c_ver c, buddies = []\<rparr>)\<rparr>;
                            (e, _, s2) = Handler_sendDiscoQuery stanza fullNode
                               \<lparr>r_type = ''caps'', r_ext = None, r_node = None,
                                r_ver = None, r_fullNode = None\<rparr> s1
                        in (e, s2)))
           in case e of
                Some err \<Rightarrow> (Some err, s2)
              | None \<Rightarrow>
                  (case pending s2 fullNode of
                     None \<Rightarrow> (Some TypeError, s2)
                   | Some p \<Rightarrow>
                       (None, s2\<lparr>pending := (pending s2)
                          (fullNode \<mapsto> p\<lparr>buddies := buddies p @ [from_jid stanza]\<rparr>)\<rparr>))))"

text \<open>One round of the loop over \<^verbatim>\<open>caps.ext\<close> in \<^verbatim>\<open>_emitCapabilitiesEvent\<close>:
  \<^verbatim>\<open>mainCaps.rawFeatures = mainCaps.rawFeatures.concat(this._extCache[fullNode][ext])\<close>.
  \<^verbatim>\<open>concat\<close> builds a new array; given \<^verbatim>\<open>undefined\<close> or an inherited member
  it appends that as one element.\<close>

definition add_extension :: "ref \<Rightarrow> string \<Rightarrow> string \<Rightarrow> handler \<Rightarrow> handler res" where
  "add_extension mainCaps fullNode ext s =
     (case extCache s fullNode of
        None \<Rightarrow> (Some TypeError, s)
      | Some m \<Rightarrow>
          (let arg = (case m ext of
                        None \<Rightarrow> if inherited ext then [member ext] else [Undefined]
                      | Some a \<Rightarrow> strArrays s a);
               (n, s1) = new_strArray (strArrays s (rawFeatures (capsObjs s mainCaps)) @ arg) s
           in (None, s1\<lparr>capsObjs := (capsObjs s1)
                 (mainCaps := (capsObjs s1 mainCaps)\<lparr>rawFeatures := n\<rparr>)\<rparr>)))"

text \<open>\<^verbatim>\<open>_emitCapabilitiesEvent(presence)\<close>.\<close>

definition Handler_emitCapabilitiesEvent :: "presence \<Rightarrow> handler \<Rightarrow> handler res" where
  "Handler_emitCapabilitiesEvent presence s =
     (case caps presence of
        None \<Rightarrow> (Some TypeError, s)
      | Some c \<Rightarrow>
          (let fullNode = fullNode_of c
           in case deepClone (cache s fullNode) s of
                (Some err, _) \<Rightarrow> (Some err, s)
              | (None, (mainCaps, s1)) \<Rightarrow>
                  (case (case c_ext c of
                           None \<Rightarrow> (None, s1)
                         | Some exts \<Rightarrow> forEach (add_extension mainCaps fullNode) exts s1) of
                     (Some err, s2) \<Rightarrow> (Some err, s2)
                   | (None, s2) \<Rightarrow>
                       (let s3 = removeDuplicates (rawFeatures (capsObjs s2 mainCaps)) s2;
                            s4 = s3\<lparr>capsObjs := (capsObjs s3)
                                   (mainCaps := (capsObjs s3 mainCaps)
                                      \<lparr>features := parseCommonFeatures
                                          (strArrays s3 (rawFeatures (capsObjs s3 mainCaps)))\<rparr>)\<rparr>
                        in (None, s4\<lparr>emitted := emitted s4 @ [(from_jid presence, mainCaps)]\<rparr>)))))"

text \<open>
  \<^verbatim>\<open>_emitEventIfFullyLoaded(jid)\<close>. Whatever \<^verbatim>\<open>this._pendingBuddies[jid]\<close> is
  when the table has no entry of its own for the jid (\<^verbatim>\<open>undefined\<close>, or an inherited
  member), its \<^verbatim>\<open>originalPresence.caps\<close> cannot be read: a TypeError.
\<close>

definition Handler_emitEventIfFullyLoaded :: "string \<Rightarrow> handler \<Rightarrow> handler res" where
  "Handler_emitEventIfFullyLoaded j s =
     (case pendingBuddies s j of
        None \<Rightarrow> (Some TypeError, s)
      | Some b \<Rightarrow>
          (let pendingBuddy = buddyObjs s b;
               presence = originalPresence pendingBuddy
           in case caps presence of
                None \<Rightarrow> (Some TypeError, s)
              | Some c \<Rightarrow>
                  if cache s (fullNode_of c) \<noteq> None \<and> pendingExts pendingBuddy = []
                  then Handler_emitCapabilitiesEvent presence s
                  else (None, s)))"

text \<open>\<^verbatim>\<open>array.splice(array.indexOf(x), 1)\<close>: the first occurrence of \<open>x\<close> goes; when
  there is none the index is \<open>-1\<close> and the last element goes.\<close>

definition splice_indexOf :: "'a \<Rightarrow> 'a list \<Rightarrow> 'a list" where
  "splice_indexOf x xs = (if x \<in> set xs then remove1 x xs else butlast xs)"

text \<open>The callback of the loop in \<^verbatim>\<open>_handleIQExt\<close>.\<close>

definition resolve_buddy :: "ref \<Rightarrow> ref option \<Rightarrow> handler \<Rightarrow> handler res" where
  "resolve_buddy pendingExt_array buddy s =
     (case buddy of
        None \<Rightarrow> (Some TypeError, s)
      | Some b \<Rightarrow>
          Handler_emitEventIfFullyLoaded (jid (buddyObjs s b))
            (s\<lparr>buddyObjs := (buddyObjs s)
                 (b := (buddyObjs s b)
                    \<lparr>pendingExts := splice_indexOf pendingExt_array (pendingExts (buddyObjs s b))\<rparr>)\<rparr>))"

text \<open>\<^verbatim>\<open>_handleIQExt(stanza, request)\<close>.\<close>

definition Handler_handleIQExt :: "iq \<Rightarrow> request \<Rightarrow> handler \<Rightarrow> handler res" where
  "Handler_handleIQExt stanza request s =
     (let fullNode = js_str (r_fullNode request);
          ext = js_str (r_ext request)
      in case pendingExt s fullNode of
           None \<Rightarrow> (Some TypeError, s)
         | Some pm \<Rightarrow>
             (let s1 = (case extCache s fullNode of
                          None \<Rightarrow> s\<lparr>extCache := (extCache s)(fullNode \<mapsto> (\<lambda>_. None))\<rparr>
                        | Some _ \<Rightarrow> s)
              in case capabilities stanza of
                   None \<Rightarrow> (Some TypeError, s1)
                 | Some cr \<Rightarrow>
                     (let inner = (case extCache s1 fullNode of None \<Rightarrow> (\<lambda>_. None) | Some m \<Rightarrow> m);
                          s2 = s1\<lparr>extCache := (extCache s1)
                                 (fullNode \<mapsto> inner(ext \<mapsto> rawFeatures (capsObjs s1 cr)))\<rparr>
                      in case pm ext of
                           None \<Rightarrow> (Some TypeError, s2)
                         | Some a \<Rightarrow>
                             (case forEach (resolve_buddy a) (refArrays s2 a) s2 of
                                (Some err, s3) \<Rightarrow> (Some err, s3)
                              | (None, s3) \<Rightarrow>
                                  (case pendingExt s3 fullNode of
                                     None \<Rightarrow> (Some TypeError, s3)
                                   | Some pm' \<Rightarrow>
                                       (None, s3\<lparr>pendingExt := (pendingExt s3)
                                          (fullNode \<mapsto> pm'(ext := None))\<rparr>))))))"

text \<open>\<^verbatim>\<open>_handleIQCaps(stanza, request)\<close>. The assignment stores whatever
  \<^verbatim>\<open>stanza.capabilities\<close> is, also \<^verbatim>\<open>undefined\<close>.\<close>

definition Handler_handleIQCaps :: "iq \<Rightarrow> request \<Rightarrow> handler \<Rightarrow> handler res" where
  "Handler_handleIQCaps stanza request s =
     (let n = js_str (r_fullNode request);
          s1 = s\<lparr>cache := (cache s)(n := capabilities stanza)\<rparr>
      in case pending s1 n of
           None \<Rightarrow> (None, s1)
         | Some p \<Rightarrow>
             (case forEach Handler_emitEventIfFullyLoaded (buddies p) s1 of
                (Some err, s2) \<Rightarrow> (Some err, s2)
              | (None, s2) \<Rightarrow> (None, s2\<lparr>pending := (pending s2)(n := None)\<rparr>)))"

text \<open>
  \<^verbatim>\<open>_handleIQ(stanza)\<close>. The request is the entry of \<^verbatim>\<open>_iqRequests\<close> under the
  id or, without one, the inherited member that the id names; the final
  \<^verbatim>\<open>delete\<close> removes an entry of the table's own only.
\<close>

definition Handler_handleIQ :: "iq \<Rightarrow> handler \<Rightarrow> handler res" where
  "Handler_handleIQ stanza s =
     (let i = js_str (iq_id stanza)
      in case (case iqRequests s i of
                 Some r \<Rightarrow> Some r
               | None \<Rightarrow> if inherited i then Some prototype_member else None) of
           None \<Rightarrow> (None, s)
         | Some request \<Rightarrow>
             (case (if r_type request = ''ext''
                    then Handler_handleIQExt stanza request s
                    else Handler_handleIQCaps stanza request s) of
                (Some err, s1) \<Rightarrow> (Some err, s1)
              | (None, s1) \<Rightarrow> (None, s1\<lparr>iqRequests := (iqRequests s1)(i := None)\<rparr>)))"

text \<open>The extensions of an announcement that are not cached under its fingerprint:
  \<^verbatim>\<open>!this._extCache[fullNode] || !this._extCache[fullNode][ext]\<close>, where the second
  lookup also finds the inherited members.\<close>

definition uncachedExts :: "caps_info \<Rightarrow> handler \<Rightarrow> string list" where
  "uncachedExts c s =
     (case c_ext c of
        None \<Rightarrow> []
      | Some exts \<Rightarrow>
          filter (\<lambda>ext. case extCache s (fullNode_of c) of
                          None \<Rightarrow> True
                        | Some m \<Rightarrow> m ext = None \<and> \<not> inherited ext) exts)"

text \<open>
  \<^verbatim>\<open>_handlePresence(stanza)\<close>. The assignment to \<^verbatim>\<open>this._pendingBuddies[stanza.from]\<close>
  is an update of the map also for the jid \<^verbatim>\<open>__proto__\<close>: there it makes the new object
  the prototype of the table, and reading the table under that jid gives the object back.
\<close>

definition Handler_handlePresence :: "presence \<Rightarrow> handler \<Rightarrow> handler res" where
  "Handler_handlePresence stanza s =
     (case caps stanza of
        None \<Rightarrow> (None, s)
      | Some c \<Rightarrow>
          (let fullNode = fullNode_of c;
               uncached = uncachedExts c s
           in if cache s fullNode \<noteq> None \<and> uncached = []
              then Handler_emitCapabilitiesEvent stanza s
              else
                (let (b, s1) = new_buddy \<lparr>jid = from_jid stanza, pendingExts = [],
                                          originalPresence = stanza\<rparr> s;
                     s2 = s1\<lparr>pendingBuddies := (pendingBuddies s1)(from_jid stanza \<mapsto> b)\<rparr>
                 in case (if cache s2 fullNode = None
                          then Handler_getCapabilitiesFromPresence stanza s2
                          else (None, s2)) of
                      (Some err, s3) \<Rightarrow> (Some err, s3)
                    | (None, s3) \<Rightarrow>
                        if uncached \<noteq> []
                        then forEach (Handler_getExtensionFromPresence stanza) uncached
                               (case pendingExt s3 fullNode of
                                  None \<Rightarrow> s3\<lparr>pendingExt := (pendingExt s3)(fullNode \<mapsto> (\<lambda>_. None))\<rparr>
                                | Some _ \<Rightarrow> s3)
                        else (None, s3))))"

text \<open>The stanzas the middleware functions look at.\<close>

datatype stanza = Presence presence | IQ iq | Other

text \<open>The function returned by \<^verbatim>\<open>capabilities(fn)\<close> (without its call of
  \<^verbatim>\<open>next\<close>).\<close>

fun capabilities_middleware :: "stanza \<Rightarrow> handler \<Rightarrow> handler res" where
  "capabilities_middleware (Presence p) s = Handler_handlePresence p s"
| "capabilities_middleware (IQ q) s = Handler_handleIQ q s"
| "capabilities_middleware Other s = (None, s)"

text \<open>The function returned by \<^verbatim>\<open>capabilitiesParser()\<close>: it annotates the stanza.\<close>

fun capabilitiesParser :: "stanza \<Rightarrow> handler \<Rightarrow> (stanza \<times> handler) res" where
  "capabilitiesParser (Presence p) s = (None, (Presence (handlePresence p), s))"
| "capabilitiesParser (IQ q) s = (case handleIQ q s of (e, (q', s')) \<Rightarrow> (e, (IQ q', s')))"
| "capabilitiesParser Other s = (None, (Other, s))"

text \<open>Both middleware in the order the README and the example install them; a throw in
  the parser means \<^verbatim>\<open>next\<close> is not called.\<close>

definition app :: "stanza \<Rightarrow> handler \<Rightarrow> handler res" where
  "app st s =
     (case capabilitiesParser st s of
        (Some err, (_, s')) \<Rightarrow> (Some err, s')
      | (None, (st', s')) \<Rightarrow> capabilities_middleware st' s')"

section \<open>Runs of the handler\<close>

text \<open>
  What reaches the handler: a presence stanza as some parser left it, or an IQ stanza,
  either without \<^verbatim>\<open>stanza.capabilities\<close> or with a capability object that the
  parser has just built from the given content. \<open>deliver\<close> hands one of them to the
  handler; \<open>run\<close> starts from a new \<^verbatim>\<open>Handler\<close> and delivers a list of them in
  order. A stanza whose handling throws is followed by the next one, in the state that
  the throw left.
\<close>

datatype event =
    Announce presence
  | Respond iq "elem list capabilities option"

fun deliver :: "event \<Rightarrow> handler \<Rightarrow> handler res" where
  "deliver (Announce p) s = Handler_handlePresence p s"
| "deliver (Respond q None) s = Handler_handleIQ (q\<lparr>capabilities := None\<rparr>) s"
| "deliver (Respond q (Some c)) s =
     (case attach_capabilities c q s of (q', s') \<Rightarrow> Handler_handleIQ q' s')"

definition run :: "event list \<Rightarrow> handler" where
  "run evs = fold (\<lambda>ev s. snd (deliver ev s)) evs Handler"

text \<open>The jids of the events emitted, in order.\<close>

definition emitted_jids :: "handler \<Rightarrow> string list" where
  "emitted_jids s = map fst (emitted s)"

text \<open>An announcement by \<open>j\<close> of node \<open>n\<close>, version \<open>v\<close> and extensions \<open>e\<close>, and a
  response with id \<open>i\<close> that carries a capability object with the raw features \<open>fs\<close>.\<close>

definition peer_presence :: "string \<Rightarrow> string \<Rightarrow> string \<Rightarrow> string list option \<Rightarrow> presence" where
  "peer_presence j n v e =
     \<lparr>from_jid = j, c_child = None,
      caps = Some \<lparr>c_node = Some n, c_ver = Some v, c_hash = None, c_ext = e\<rparr>\<rparr>"

definition announcement :: "string \<Rightarrow> string \<Rightarrow> string \<Rightarrow> string list option \<Rightarrow> event" where
  "announcement j n v e = Announce (peer_presence j n v e)"

definition response :: "string \<Rightarrow> elem list \<Rightarrow> event" where
  "response i fs =
     Respond \<lparr>iq_id = Some i, iq_type = Some ''result'', iq_query = None, capabilities = None\<rparr>
       (Some \<lparr>node = None, rawFeatures = fs, features = parseCommonFeatures fs,
              clientName = None\<rparr>)"

section \<open>Reading the handler's tables\<close>

text \<open>\<^verbatim>\<open>this._extCache[fullNode] && this._extCache[fullNode][ext]\<close> is truthy: the
  extension counts as cached.\<close>

definition ext_cached :: "handler \<Rightarrow> string \<Rightarrow> string \<Rightarrow> bool" where
  "ext_cached s fullNode ext =
     (case extCache s fullNode of None \<Rightarrow> False | Some m \<Rightarrow> m ext \<noteq> None \<or> inherited ext)"

text \<open>The array \<^verbatim>\<open>this._pendingExt[fullNode][ext]\<close>, if both levels are there.\<close>

definition pendingExt_at :: "handler \<Rightarrow> string \<Rightarrow> string \<Rightarrow> ref option" where
  "pendingExt_at s fullNode ext =
     (case pendingExt s fullNode of None \<Rightarrow> None | Some m \<Rightarrow> m ext)"

text \<open>The extension ids of an announcement (none when \<^verbatim>\<open>caps.ext\<close> is undefined).\<close>

definition exts_of :: "caps_info \<Rightarrow> string list" where
  "exts_of c = (case c_ext c of None \<Rightarrow> [] | Some exts \<Rightarrow> exts)"

text \<open>The main capability set of an announcement and every extension it lists are in the
  caches.\<close>

definition fully_cached :: "caps_info \<Rightarrow> handler \<Rightarrow> bool" where
  "fully_cached c s =
     (cache s (fullNode_of c) \<noteq> None \<and>
      (\<forall>ext \<in> set (exts_of c). ext_cached s (fullNode_of c) ext))"

section \<open>Vocabulary of the proofs\<close>

text \<open>\<open>only_emits s s'\<close>: from \<open>s\<close> to \<open>s'\<close> nothing happened but allocation of new
  capability objects and feature arrays, and emission of events. No field of the handler
  changed, and no object that existed in \<open>s\<close>.\<close>

definition only_emits :: "handler \<Rightarrow> handler \<Rightarrow> bool" where
  "only_emits s s' =
     (cache s' = cache s \<and> extCache s' = extCache s \<and> pending s' = pending s \<and>
      pendingExt s' = pendingExt s \<and> pendingBuddies s' = pendingBuddies s \<and>
      iqRequests s' = iqRequests s \<and> iqCount s' = iqCount s \<and> sent s' = sent s \<and>
      buddyObjs s' = buddyObjs s \<and> refArrays s' = refArrays s \<and>
      heapTop s \<le> heapTop s' \<and>
      (\<forall>r < heapTop s. capsObjs s' r = capsObjs s r \<and> strArrays s' r = strArrays s r) \<and>
      (\<exists>new. emitted s' = emitted s @ new))"

text \<open>What \<^verbatim>\<open>concat(this._extCache[fullNode][ext])\<close> appends.\<close>

definition ext_features :: "handler \<Rightarrow> string \<Rightarrow> string \<Rightarrow> elem list" where
  "ext_features s fullNode ext =
     (case extCache s fullNode of
        None \<Rightarrow> []
      | Some m \<Rightarrow>
          (case m ext of
             None \<Rightarrow> if inherited ext then [member ext] else [Undefined]
           | Some a \<Rightarrow> strArrays s a))"

text \<open>Every object the caches point to has been allocated.\<close>

definition caps_heap_ok :: "handler \<Rightarrow> bool" where
  "caps_heap_ok s =
     ((\<forall>n c. cache s n = Some c \<longrightarrow> c < heapTop s \<and> rawFeatures (capsObjs s c) < heapTop s) \<and>
      (\<forall>n m e a. extCache s n = Some m \<and> m e = Some a \<longrightarrow> a < heapTop s))"

text \<open>State \<open>t\<close> of the loop over the extensions in \<^verbatim>\<open>_emitCapabilitiesEvent\<close>, entered
  from \<open>s\<close> with the clone \<open>m\<close>: the clone and its array are new objects.\<close>

definition clone_progress :: "handler \<Rightarrow> ref \<Rightarrow> handler \<Rightarrow> bool" where
  "clone_progress s m t =
     (only_emits s t \<and> emitted t = emitted s \<and> heapTop s \<le> m \<and> m < heapTop t \<and>
      heapTop s \<le> rawFeatures (capsObjs t m) \<and> rawFeatures (capsObjs t m) < heapTop t)"

text \<open>\<open>only_resolves s s'\<close>: as \<open>only_emits\<close>, except that pending-buddy objects may have
  changed in their \<^verbatim>\<open>pendingExts\<close>.\<close>

definition only_resolves :: "handler \<Rightarrow> handler \<Rightarrow> bool" where
  "only_resolves s s' =
     (cache s' = cache s \<and> extCache s' = extCache s \<and> pending s' = pending s \<and>
      pendingExt s' = pendingExt s \<and> pendingBuddies s' = pendingBuddies s \<and>
      iqRequests s' = iqRequests s \<and> iqCount s' = iqCount s \<and> sent s' = sent s \<and>
      refArrays s' = refArrays s \<and> heapTop s \<le> heapTop s' \<and>
      (\<forall>b. jid (buddyObjs s' b) = jid (buddyObjs s b) \<and>
           originalPresence (buddyObjs s' b) = originalPresence (buddyObjs s b)) \<and>
      (\<forall>r < heapTop s. capsObjs s' r = capsObjs s r \<and> strArrays s' r = strArrays s r) \<and>
      (\<exists>new. emitted s' = emitted s @ new))"

text \<open>The value of \<^verbatim>\<open>this._extCache[fullNode][ext]\<close>, if both levels are there.\<close>

definition extCache_at :: "handler \<Rightarrow> string \<Rightarrow> string \<Rightarrow> ref option" where
  "extCache_at s fullNode ext =
     (case extCache s fullNode of None \<Rightarrow> None | Some m \<Rightarrow> m ext)"

text \<open>The array that \<^verbatim>\<open>_emitCapabilitiesEvent\<close> has built before it removes the
  duplicates, for an announcement \<open>c\<close> whose main capability object is \<open>r\<close>: the JSON
  copy of the cached raw features, then the cached features of each announced extension
  in turn.\<close>

definition merged_rawFeatures :: "caps_info \<Rightarrow> ref \<Rightarrow> handler \<Rightarrow> elem list" where
  "merged_rawFeatures c r s =
     map json_elem (strArrays s (rawFeatures (capsObjs s r))) @
     concat (map (ext_features s (fullNode_of c)) (exts_of c))"

text \<open>\<^verbatim>\<open>_emitCapabilitiesEvent(p)\<close> can run to its end: the presence has \<^verbatim>\<open>caps\<close>
  \<open>c\<close>, the main capability object \<open>r\<close> is cached, and \<^verbatim>\<open>_extCache[fullNode]\<close> exists
  if an extension is to be read from it.\<close>

definition emittable :: "presence \<Rightarrow> caps_info \<Rightarrow> ref \<Rightarrow> handler \<Rightarrow> bool" where
  "emittable p c r s =
     (caps p = Some c \<and> cache s (fullNode_of c) = Some r \<and>
      (exts_of c \<noteq> [] \<longrightarrow> extCache s (fullNode_of c) \<noteq> None))"

section \<open>Consistency of the handler's tables\<close>

text \<open>
  The pending-buddy object \<open>b\<close> accounts for every extension its announcement lists: the
  extension is cached under the fingerprint, or a request for it is pending and its
  pending array is among the object's \<^verbatim>\<open>pendingExts\<close>, or (while the announcement is
  still being registered) it is one of the extensions \<open>todo\<close>.
\<close>

definition buddy_ready :: "handler \<Rightarrow> ref \<Rightarrow> string list \<Rightarrow> bool" where
  "buddy_ready s b todo =
     (\<exists>c. caps (originalPresence (buddyObjs s b)) = Some c \<and>
          (\<forall>e \<in> set (exts_of c).
              ext_cached s (fullNode_of c) e \<or> e \<in> set todo \<or>
              (\<exists>a. pendingExt_at s (fullNode_of c) e = Some a \<and>
                   a \<in> set (pendingExts (buddyObjs s b)))))"

text \<open>Every entry of \<^verbatim>\<open>_pendingBuddies\<close> is an allocated object made for that jid and
  is ready; the entry of \<open>j0\<close> may still have the extensions \<open>todo\<close> to register.\<close>

definition ledger_during :: "handler \<Rightarrow> string \<Rightarrow> string list \<Rightarrow> bool" where
  "ledger_during s j0 todo =
     (\<forall>j b. pendingBuddies s j = Some b \<longrightarrow>
        b < heapTop s \<and> jid (buddyObjs s b) = j \<and>
        from_jid (originalPresence (buddyObjs s b)) = j \<and>
        buddy_ready s b (if j = j0 then todo else []))"

definition ledger_ok :: "handler \<Rightarrow> bool" where
  "ledger_ok s = ledger_during s [] []"

text \<open>Every jid waiting in \<^verbatim>\<open>_pending\<close> has an entry in \<^verbatim>\<open>_pendingBuddies\<close>.\<close>

definition waiters_ok :: "handler \<Rightarrow> bool" where
  "waiters_ok s =
     (\<forall>n p j. pending s n = Some p \<and> j \<in> set (buddies p) \<longrightarrow> pendingBuddies s j \<noteq> None)"

text \<open>
  Every pending-extension array is allocated, holds pending-buddy objects whose jid has
  an entry in \<^verbatim>\<open>_pendingBuddies\<close>, and each object has the array in its
  \<^verbatim>\<open>pendingExts\<close> at least as often as the array holds the object. While the loop of
  \<^verbatim>\<open>_handleIQExt\<close> walks array \<open>a0\<close>, the last part counts only the elements \<open>rest\<close>
  still to come.
\<close>

definition arrays_during :: "handler \<Rightarrow> ref \<Rightarrow> ref option list \<Rightarrow> bool" where
  "arrays_during s a0 rest =
     (\<forall>n e a. pendingExt_at s n e = Some a \<longrightarrow>
        a < heapTop s \<and>
        (\<forall>x \<in> set (refArrays s a).
            \<exists>b. x = Some b \<and> b < heapTop s \<and> pendingBuddies s (jid (buddyObjs s b)) \<noteq> None) \<and>
        (\<forall>b. count_list (if a = a0 then rest else refArrays s a) (Some b)
               \<le> count_list (pendingExts (buddyObjs s b)) a))"

definition arrays_ok :: "handler \<Rightarrow> bool" where
  "arrays_ok s = (\<forall>a0. arrays_during s a0 (refArrays s a0))"

text \<open>Different entries of \<^verbatim>\<open>_pendingExt\<close> hold different arrays.\<close>

definition arrays_distinct :: "handler \<Rightarrow> bool" where
  "arrays_distinct s =
     (\<forall>n e n' e' a. pendingExt_at s n e = Some a \<and> pendingExt_at s n' e' = Some a \<longrightarrow>
        n = n' \<and> e = e')"

text \<open>
  Every entry of \<^verbatim>\<open>_iqRequests\<close>, the one with id \<open>i0\<close> excepted (the one being
  handled): an extension request has its pending array and its extension is not cached;
  a main request has its entry in \<^verbatim>\<open>_pending\<close> and its fingerprint is not cached.
\<close>

definition requests_during :: "handler \<Rightarrow> string option \<Rightarrow> bool" where
  "requests_during s i0 =
     (\<forall>i r. iqRequests s i = Some r \<and> Some i \<noteq> i0 \<longrightarrow>
        (r_type r = ''ext'' \<longrightarrow>
           pendingExt_at s (js_str (r_fullNode r)) (js_str (r_ext r)) \<noteq> None \<and>
           \<not> ext_cached s (js_str (r_fullNode r)) (js_str (r_ext r))) \<and>
        (r_type r \<noteq> ''ext'' \<longrightarrow>
           pending s (js_str (r_fullNode r)) \<noteq> None \<and>
           cache s (js_str (r_fullNode r)) = None))"

definition requests_ok :: "handler \<Rightarrow> bool" where
  "requests_ok s = requests_during s None"

text \<open>Two requests are for the same thing: both for the main capability set of the same
  fingerprint, or both for the same extension of the same fingerprint.\<close>

definition same_target :: "request \<Rightarrow> request \<Rightarrow> bool" where
  "same_target r r' =
     ((r_type r = ''ext'') = (r_type r' = ''ext'') \<and>
      js_str (r_fullNode r) = js_str (r_fullNode r') \<and>
      (r_type r = ''ext'' \<longrightarrow> js_str (r_ext r) = js_str (r_ext r')))"

text \<open>At most one request is outstanding for each target.\<close>

definition requests_unique :: "handler \<Rightarrow> bool" where
  "requests_unique s =
     (\<forall>i i' r r'. iqRequests s i = Some r \<and> iqRequests s i' = Some r' \<and> same_target r r'
        \<longrightarrow> i = i')"

text \<open>The part of consistency that does not change while one stanza is handled, and all
  of it.\<close>

definition tables_ok :: "handler \<Rightarrow> bool" where
  "tables_ok s =
     (waiters_ok s \<and> arrays_distinct s \<and> requests_unique s \<and> caps_heap_ok s)"

definition consistent :: "handler \<Rightarrow> bool" where
  "consistent s = (tables_ok s \<and> ledger_ok s \<and> arrays_ok s \<and> requests_ok s)"

text \<open>The capability object of an IQ stanza, if it has one, is an allocated object.\<close>

definition stanza_on_heap :: "iq \<Rightarrow> handler \<Rightarrow> bool" where
  "stanza_on_heap st s =
     (\<forall>cr. capabilities st = Some cr \<longrightarrow>
        cr < heapTop s \<and> rawFeatures (capsObjs s cr) < heapTop s)"

text \<open>
  Every event emitted between \<open>s\<close> and \<open>t\<close> is justified: it is for the announcement in
  the pending record of its jid, or for the presence \<open>p0\<close> (the one being handled, if
  any), and the main capability set and every extension of that announcement are cached.
\<close>

definition emissions_justified :: "presence option \<Rightarrow> handler \<Rightarrow> handler \<Rightarrow> bool" where
  "emissions_justified p0 s t =
     (\<forall>(j, m) \<in> set (drop (length (emitted s)) (emitted t)).
        \<exists>c. fully_cached c t \<and>
            ((\<exists>p. p0 = Some p \<and> caps p = Some c \<and> from_jid p = j) \<or>
             (\<exists>b. pendingBuddies t j = Some b \<and>
                  caps (originalPresence (buddyObjs t b)) = Some c)))"

section \<open>Evaluation lemmas\<close>

lemma dec_small: "n < 10 \<Longrightarrow> dec n = [digit n]"
  by (simp add: dec.simps)

lemma dec_1 [simp]: "dec (Suc 0) = ''1''"
  by (simp add: dec_small digit_def)

lemma dec_2 [simp]: "dec (Suc (Suc 0)) = ''2''"
  by (simp add: dec_small digit_def)

lemma dec_3 [simp]: "dec (Suc (Suc (Suc 0))) = ''3''"
  by (simp add: dec_small digit_def)

lemma js_succ_small [simp]: "n < 9007199254740992 \<Longrightarrow> js_succ n = Suc n"
  by (simp add: js_succ_def)

lemma inherited_fullNode [simp]: "\<not> inherited (fullNode_of c)"
  by (auto simp: inherited_def prototype_functions_def fullNode_of_def
      Cons_eq_append_conv append_eq_Cons_conv)

lemma inherited_empty [simp]: "\<not> inherited []"
  by (simp add: inherited_def prototype_functions_def)

lemmas handler_defs =
  Handler_handlePresence_def Handler_handleIQ_def Handler_handleIQCaps_def
  Handler_handleIQExt_def Handler_emitEventIfFullyLoaded_def Handler_emitCapabilitiesEvent_def
  Handler_getCapabilitiesFromPresence_def Handler_getExtensionFromPresence_def
  Handler_sendDiscoQuery_def uncachedExts_def fullNode_of_def js_str_def
  new_buddy_def new_strArray_def new_capsObj_def new_refArray_def deepClone_def
  removeDuplicates_def add_extension_def resolve_buddy_def splice_indexOf_def
  attach_capabilities_def inherited_def prototype_functions_def member_def
  prototype_member_def

lemmas scenario_defs =
  run_def announcement_def peer_presence_def response_def Handler_def emitted_jids_def
  handler_defs
  ext_cached_def pendingExt_at_def exts_of_def Let_def

section \<open>Responses with an unknown correlation id\<close>

lemma unknown_id_ignored:
  assumes "iqRequests s (js_str (iq_id stanza)) = None"
    and "\<not> inherited (js_str (iq_id stanza))"
  shows "capabilities_middleware (IQ stanza) s = (None, s)"
  using assms by (simp add: Handler_handleIQ_def)

lemma inherited_id_handled:
  assumes "iqRequests s (js_str (iq_id stanza)) = None"
    and "inherited (js_str (iq_id stanza))" and "pending s ''undefined'' = None"
  shows "capabilities_middleware (IQ stanza) s =
           (None, s\<lparr>cache := (cache s)(''undefined'' := capabilities stanza)\<rparr>)"
  using assms
  by (simp add: Handler_handleIQ_def Handler_handleIQCaps_def prototype_member_def
      js_str_def Let_def fun_upd_idem)

text \<open>
  Claim C3 fails for an id that names a member of \<^verbatim>\<open>Object.prototype\<close>. After the
  single announcement of \<^verbatim>\<open>p1\<close> the only request issued is \<^verbatim>\<open>caps-1\<close>. A response
  with the id \<^verbatim>\<open>constructor\<close>, which was never issued, is not ignored:
  \<^verbatim>\<open>this._iqRequests['constructor']\<close> is the inherited function, so the guard
  \<^verbatim>\<open>if (!request) return\<close> lets it pass, \<^verbatim>\<open>_handleIQCaps\<close> runs with an undefined
  \<^verbatim>\<open>fullNode\<close> and stores the capability object of the stanza in
  \<^verbatim>\<open>_cache['undefined']\<close>.
\<close>

theorem never_issued_id_changes_cache:
  "map sent_id (sent (run [announcement ''p1'' ''app'' ''v1'' None])) = [''caps-1''] \<and>
   iqRequests (run [announcement ''p1'' ''app'' ''v1'' None]) ''constructor'' = None \<and>
   cache (run [announcement ''p1'' ''app'' ''v1'' None]) ''undefined'' = None \<and>
   fst (deliver (response ''constructor'' [Str ''jabber:iq:version''])
          (run [announcement ''p1'' ''app'' ''v1'' None])) = None \<and>
   cache (snd (deliver (response ''constructor'' [Str ''jabber:iq:version''])
          (run [announcement ''p1'' ''app'' ''v1'' None]))) ''undefined'' = Some 2"
  by (simp add: scenario_defs)

section \<open>Loops and frames\<close>

lemma only_emits_refl: "only_emits s s"
  by (simp add: only_emits_def)

lemma only_emits_trans: "only_emits s s1 \<Longrightarrow> only_emits s1 s2 \<Longrightarrow> only_emits s s2"
  by (auto simp: only_emits_def)

lemma forEach_invariant:
  assumes "P s" and "\<And>x t. x \<in> set xs \<Longrightarrow> P t \<Longrightarrow> P (snd (f x t))"
  shows "P (snd (forEach f xs s))"
  using assms
proof (induction xs arbitrary: s)
  case Nil
  then show ?case by simp
next
  case (Cons x xs)
  have st: "P (snd (f x s))" using Cons.prems by simp
  then have "P (snd (forEach f xs (snd (f x s))))"
    using Cons.IH Cons.prems(2) by simp
  then show ?case using st
    by (cases "f x s") (auto split: option.splits)
qed

lemma forEach_no_throw:
  assumes "P s" and "\<And>x t. x \<in> set xs \<Longrightarrow> P t \<Longrightarrow> fst (f x t) = None \<and> P (snd (f x t))"
  shows "fst (forEach f xs s) = None \<and> P (snd (forEach f xs s))"
  using assms
proof (induction xs arbitrary: s)
  case Nil
  then show ?case by simp
next
  case (Cons x xs)
  have st: "fst (f x s) = None" "P (snd (f x s))" using Cons.prems by simp_all
  then have "fst (forEach f xs (snd (f x s))) = None \<and> P (snd (forEach f xs (snd (f x s))))"
    using Cons.IH Cons.prems(2) by simp
  then show ?case using st
    by (cases "f x s") (auto split: option.splits)
qed

lemma add_extension_progress:
  assumes "clone_progress s m t"
  shows "clone_progress s m (snd (add_extension m n e t))"
  using assms
  by (auto simp: clone_progress_def only_emits_def add_extension_def new_strArray_def Let_def
      split: option.splits)

lemma add_extension_loop_progress:
  "clone_progress s m t \<Longrightarrow> clone_progress s m (snd (forEach (add_extension m n) es t))"
  by (rule forEach_invariant) (auto intro: add_extension_progress)

lemma deepClone_progress:
  assumes "deepClone (Some r) s = (e, (m, t))"
  shows "e = None \<and> m = Suc (heapTop s) \<and> clone_progress s m t"
  using assms
  by (auto simp: deepClone_def new_strArray_def new_capsObj_def clone_progress_def
      only_emits_def Let_def)

lemma emitCapabilitiesEvent_only_emits:
  "only_emits s (snd (Handler_emitCapabilitiesEvent p s))"
proof (cases "caps p")
  case None
  then show ?thesis by (simp add: Handler_emitCapabilitiesEvent_def only_emits_refl)
next
  case (Some c)
  show ?thesis
  proof (cases "cache s (fullNode_of c)")
    case None
    then show ?thesis using Some
      by (simp add: Handler_emitCapabilitiesEvent_def deepClone_def only_emits_refl)
  next
    case (Some r)
    obtain e m t where dc: "deepClone (Some r) s = (e, (m, t))"
      by (metis prod.exhaust)
    from deepClone_progress[OF dc] have e: "e = None" and cp: "clone_progress s m t" by auto
    define u where "u = (case c_ext c of None \<Rightarrow> (None, t)
        | Some exts \<Rightarrow> forEach (add_extension m (fullNode_of c)) exts t)"
    have cu: "clone_progress s m (snd u)"
      using cp by (auto simp: u_def add_extension_loop_progress split: option.splits)
    show ?thesis
      using \<open>caps p = Some c\<close> Some dc e cu
      apply (simp add: Handler_emitCapabilitiesEvent_def Let_def u_def[symmetric])
      apply (cases u)
      apply (auto simp: clone_progress_def only_emits_def removeDuplicates_def split: option.splits)
      done
  qed
qed

lemma emitEventIfFullyLoaded_only_emits:
  "only_emits s (snd (Handler_emitEventIfFullyLoaded j s))"
  by (auto simp: Handler_emitEventIfFullyLoaded_def Let_def only_emits_refl
      emitCapabilitiesEvent_only_emits split: option.splits)

section \<open>The node of a discovery query\<close>

lemma sendDiscoQuery_sent:
  assumes "caps stanza = Some c"
  shows "Handler_sendDiscoQuery stanza qnode x s = (e, (i, t)) \<Longrightarrow>
         e = None \<and> i = ''caps-'' @ dec (js_succ (iqCount s)) \<and>
         sent t = sent s @ [\<lparr>to_jid = from_jid stanza, sent_id = i, sent_node = qnode\<rparr>]"
  using assms by (auto simp: Handler_sendDiscoQuery_def Let_def)





section \<open>The ledger of pending buddies\<close>

lemma only_resolves_refl: "only_resolves s s"
  by (simp add: only_resolves_def)

lemma only_resolves_trans:
  "only_resolves s s1 \<Longrightarrow> only_resolves s1 s2 \<Longrightarrow> only_resolves s s2"
  by (auto simp: only_resolves_def)

lemma only_emits_resolves: "only_emits s s' \<Longrightarrow> only_resolves s s'"
  by (auto simp: only_emits_def only_resolves_def)

lemma emitEventIfFullyLoaded_loop_resolves:
  "only_resolves s (snd (forEach Handler_emitEventIfFullyLoaded js s))"
proof (rule forEach_invariant[where P = "only_resolves s"])
  show "only_resolves s s" by (rule only_resolves_refl)
next
  fix x t
  assume "only_resolves s t"
  then show "only_resolves s (snd (Handler_emitEventIfFullyLoaded x t))"
    using only_emits_resolves[OF emitEventIfFullyLoaded_only_emits[of t x]]
    by (rule only_resolves_trans)
qed

lemma resolve_buddy_resolves: "only_resolves s (snd (resolve_buddy a x s))"
proof (cases x)
  case None
  then show ?thesis by (simp add: resolve_buddy_def only_resolves_refl)
next
  case (Some b)
  define t where "t = s\<lparr>buddyObjs := (buddyObjs s)
                 (b := (buddyObjs s b)
                    \<lparr>pendingExts := splice_indexOf a (pendingExts (buddyObjs s b))\<rparr>)\<rparr>"
  have "only_resolves s t" by (simp add: t_def only_resolves_def)
  moreover have "only_resolves t (snd (Handler_emitEventIfFullyLoaded (jid (buddyObjs s b)) t))"
    by (rule only_emits_resolves[OF emitEventIfFullyLoaded_only_emits])
  ultimately show ?thesis
    using Some by (simp add: resolve_buddy_def t_def[symmetric] only_resolves_trans)
qed

lemma resolve_buddy_loop_resolves:
  "only_resolves s (snd (forEach (resolve_buddy a) xs s))"
proof (rule forEach_invariant[where P = "only_resolves s"])
  show "only_resolves s s" by (rule only_resolves_refl)
next
  fix x t
  assume "only_resolves s t"
  then show "only_resolves s (snd (resolve_buddy a x t))"
    using resolve_buddy_resolves[of t a x] by (rule only_resolves_trans)
qed

lemma res_case:
  "(case x of (None, s') \<Rightarrow> f s' | (Some e, s') \<Rightarrow> (Some e, s')) =
   (if fst x = None then f (snd x) else x)"
  by (cases x) (auto split: option.splits)

lemma handleIQCaps_pendingBuddies:
  "pendingBuddies (snd (Handler_handleIQCaps st r s)) = pendingBuddies s"
proof -
  define s1 where "s1 = s\<lparr>cache := (cache s)(js_str (r_fullNode r) := capabilities st)\<rparr>"
  have "\<And>js. pendingBuddies (snd (forEach Handler_emitEventIfFullyLoaded js s1)) = pendingBuddies s"
    using emitEventIfFullyLoaded_loop_resolves[of s1]
    by (simp add: only_resolves_def s1_def)
  then show ?thesis
    by (simp add: Handler_handleIQCaps_def Let_def s1_def[symmetric] res_case split: option.splits)
       (simp add: s1_def)
qed

lemma handleIQExt_pendingBuddies:
  "pendingBuddies (snd (Handler_handleIQExt st r s)) = pendingBuddies s"
proof -
  have "\<And>a xs t. pendingBuddies (snd (forEach (resolve_buddy a) xs t)) = pendingBuddies t"
    using resolve_buddy_loop_resolves by (simp add: only_resolves_def)
  then show ?thesis
    by (simp add: Handler_handleIQExt_def Let_def res_case split: option.splits)
qed

lemma handleIQ_pendingBuddies:
  "pendingBuddies (snd (Handler_handleIQ st s)) = pendingBuddies s"
  by (simp add: Handler_handleIQ_def Let_def res_case handleIQExt_pendingBuddies
      handleIQCaps_pendingBuddies split: option.splits)

lemma sendDiscoQuery_pendingBuddies:
  "pendingBuddies (snd (snd (Handler_sendDiscoQuery st n x s))) = pendingBuddies s"
  by (simp add: Handler_sendDiscoQuery_def Let_def split: option.splits)

lemma getCapabilitiesFromPresence_pendingBuddies:
  "pendingBuddies (snd (Handler_getCapabilitiesFromPresence st s)) = pendingBuddies s"
  by (simp add: Handler_getCapabilitiesFromPresence_def Handler_sendDiscoQuery_def Let_def
      split: option.splits prod.splits)

lemma getExtensionFromPresence_pendingBuddies:
  "pendingBuddies (snd (Handler_getExtensionFromPresence st e s)) = pendingBuddies s"
  by (simp add: Handler_getExtensionFromPresence_def Handler_sendDiscoQuery_def
      new_refArray_def Let_def split: option.splits prod.splits)

lemma getExtensionFromPresence_loop_pendingBuddies:
  "pendingBuddies (snd (forEach (Handler_getExtensionFromPresence st) es s)) = pendingBuddies s"
  by (rule forEach_invariant[where P = "\<lambda>t. pendingBuddies t = pendingBuddies s"])
     (simp_all add: getExtensionFromPresence_pendingBuddies)

lemma handlePresence_pendingBuddies:
  "pendingBuddies (snd (Handler_handlePresence p s)) = pendingBuddies s \<or>
   pendingBuddies (snd (Handler_handlePresence p s)) =
     (pendingBuddies s)(from_jid p \<mapsto> heapTop s)"
proof (cases "caps p")
  case None
  then show ?thesis by (simp add: Handler_handlePresence_def)
next
  case (Some c)
  have e: "pendingBuddies (snd (Handler_emitCapabilitiesEvent p s)) = pendingBuddies s"
    using emitCapabilitiesEvent_only_emits[of s p] by (simp add: only_emits_def)
  show ?thesis
    using Some e
    by (simp add: Handler_handlePresence_def Let_def res_case new_buddy_def
        getExtensionFromPresence_loop_pendingBuddies getCapabilitiesFromPresence_pendingBuddies
        split: option.splits)
qed

text \<open>
  Claim C6, as amended. Emitting the event for a peer leaves \<^verbatim>\<open>_pendingBuddies\<close> as it
  is. A stanza handled by the middleware either leaves the table as it is, or it is a
  presence stanza and the entry of its sender is set to a new record: no entry is ever
  removed, the entry of a peer changes only by a later announcement of that peer, and a
  peer's record stays in the ledger after the peer is resolved, where a later check of the
  same jid finds it again. There is no release operation that could fail.
\<close>

theorem ledger_entry_kept_after_emission:
  "pendingBuddies (snd (Handler_emitCapabilitiesEvent p s)) = pendingBuddies s \<and>
   pendingBuddies (snd (Handler_emitEventIfFullyLoaded j s)) = pendingBuddies s \<and>
   (pendingBuddies (snd (capabilities_middleware st s)) = pendingBuddies s \<or>
    (\<exists>q. st = Presence q \<and>
         pendingBuddies (snd (capabilities_middleware st s)) =
           (pendingBuddies s)(from_jid q \<mapsto> heapTop s))) \<and>
   (pendingBuddies s k \<noteq> None \<longrightarrow>
      pendingBuddies (snd (capabilities_middleware st s)) k \<noteq> None)"
proof -
  have 1: "pendingBuddies (snd (Handler_emitCapabilitiesEvent p s)) = pendingBuddies s"
    using emitCapabilitiesEvent_only_emits[of s p] by (simp add: only_emits_def)
  have 2: "pendingBuddies (snd (Handler_emitEventIfFullyLoaded j s)) = pendingBuddies s"
    using emitEventIfFullyLoaded_only_emits[of s j] by (simp add: only_emits_def)
  have 3: "pendingBuddies (snd (capabilities_middleware st s)) = pendingBuddies s \<or>
    (\<exists>q. st = Presence q \<and>
         pendingBuddies (snd (capabilities_middleware st s)) =
           (pendingBuddies s)(from_jid q \<mapsto> heapTop s))"
  proof (cases st)
    case (Presence q)
    then show ?thesis using handlePresence_pendingBuddies[of q s] by auto
  next
    case (IQ q)
    then show ?thesis by (simp add: handleIQ_pendingBuddies)
  next
    case Other
    then show ?thesis by simp
  qed
  have 4: "pendingBuddies s k \<noteq> None \<longrightarrow>
      pendingBuddies (snd (capabilities_middleware st s)) k \<noteq> None"
    using 3 by auto
  from 1 2 3 4 show ?thesis by blast
qed

lemma scenario_A_ledger:
  "pendingBuddies (run [announcement ''p1'' ''app'' ''v1'' None,
                        response ''caps-1'' [Str ''jabber:iq:version'']]) ''p1'' = Some 0 \<and>
   emitted_jids (run [announcement ''p1'' ''app'' ''v1'' None,
                      response ''caps-1'' [Str ''jabber:iq:version'']]) = [''p1''] \<and>
   pendingBuddies (snd (capabilities_middleware
      (Presence (peer_presence ''p1'' ''app'' ''v1'' (Some [''ext1''])))
      (run [announcement ''p1'' ''app'' ''v1'' None,
            response ''caps-1'' [Str ''jabber:iq:version'']]))) ''p1'' = Some 5"
  by (simp add: scenario_defs)

theorem ledger_entry_kept_after_emission_witness:
  "pendingBuddies (snd (capabilities_middleware
      (IQ \<lparr>iq_id = Some ''caps-1'', iq_type = Some ''result'', iq_query = None,
           capabilities = None\<rparr>)
      (run [announcement ''p1'' ''app'' ''v1'' None,
            response ''caps-1'' [Str ''jabber:iq:version'']]))) =
     pendingBuddies (run [announcement ''p1'' ''app'' ''v1'' None,
                          response ''caps-1'' [Str ''jabber:iq:version'']]) \<and>
   pendingBuddies (snd (capabilities_middleware
      (IQ \<lparr>iq_id = Some ''caps-1'', iq_type = Some ''result'', iq_query = None,
           capabilities = None\<rparr>)
      (run [announcement ''p1'' ''app'' ''v1'' None,
            response ''caps-1'' [Str ''jabber:iq:version'']]))) ''p1'' = Some 0 \<and>
   pendingBuddies (snd (capabilities_middleware
      (Presence (peer_presence ''p1'' ''app'' ''v1'' (Some [''ext1''])))
      (run [announcement ''p1'' ''app'' ''v1'' None,
            response ''caps-1'' [Str ''jabber:iq:version'']]))) ''p1'' \<noteq> None"
  using ledger_entry_kept_after_emission
    [of _ "run [announcement ''p1'' ''app'' ''v1'' None,
                response ''caps-1'' [Str ''jabber:iq:version'']]" _
        "IQ \<lparr>iq_id = Some ''caps-1'', iq_type = Some ''result'', iq_query = None,
            capabilities = None\<rparr>" "''p1''"]
    ledger_entry_kept_after_emission
    [of _ "run [announcement ''p1'' ''app'' ''v1'' None,
                response ''caps-1'' [Str ''jabber:iq:version'']]" _
        "Presence (peer_presence ''p1'' ''app'' ''v1'' (Some [''ext1'']))" "''p1''"]
    scenario_A_ledger
  by auto

text \<open>
  Claim C6 as stated fails: after the single announcement of scenario A has been resolved
  and its event emitted, the record of \<^verbatim>\<open>p1\<close> is still in the ledger.
\<close>

theorem ledger_entry_removed_counterexample:
  "emitted_jids (run [announcement ''p1'' ''app'' ''v1'' None,
                      response ''caps-1'' [Str ''jabber:iq:version'']]) = [''p1''] \<and>
   pendingBuddies (run [announcement ''p1'' ''app'' ''v1'' None,
                        response ''caps-1'' [Str ''jabber:iq:version'']]) ''p1'' = Some 0"
  by (simp add: scenario_defs)

section \<open>Error responses\<close>

text \<open>
  Claim C7 fails on the extension path. The parser leaves an error response without
  \<^verbatim>\<open>stanza.capabilities\<close>; for an outstanding extension request,
  \<^verbatim>\<open>_handleIQExt\<close> then reads \<^verbatim>\<open>caps.rawFeatures\<close> of \<^verbatim>\<open>undefined\<close>. Here
  \<^verbatim>\<open>p1\<close> announces \<^verbatim>\<open>app#v1\<close> with extension \<^verbatim>\<open>ext1\<close>, which sends the main
  query \<^verbatim>\<open>caps-1\<close> and the extension query \<^verbatim>\<open>caps-2\<close>; the error response to
  \<^verbatim>\<open>caps-2\<close> makes the middleware throw a TypeError, and the pending entry and the
  request entry are still there afterwards.
\<close>

theorem error_response_to_extension_query_throws:
  "fst (app (IQ \<lparr>iq_id = Some ''caps-2'', iq_type = Some ''error'', iq_query = None,
                 capabilities = None\<rparr>)
         (snd (app (Presence \<lparr>from_jid = ''p1'',
                      c_child = Some \<lparr>a_node = Some ''app'', a_ver = Some ''v1'',
                                      a_hash = None, a_ext = Some ''ext1''\<rparr>,
                      caps = None\<rparr>) Handler))) = Some TypeError \<and>
   map sent_id (sent (snd (app (Presence \<lparr>from_jid = ''p1'',
                      c_child = Some \<lparr>a_node = Some ''app'', a_ver = Some ''v1'',
                                      a_hash = None, a_ext = Some ''ext1''\<rparr>,
                      caps = None\<rparr>) Handler))) = [''caps-1'', ''caps-2''] \<and>
   pendingExt_at
     (snd (app (IQ \<lparr>iq_id = Some ''caps-2'', iq_type = Some ''error'', iq_query = None,
                 capabilities = None\<rparr>)
         (snd (app (Presence \<lparr>from_jid = ''p1'',
                      c_child = Some \<lparr>a_node = Some ''app'', a_ver = Some ''v1'',
                                      a_hash = None, a_ext = Some ''ext1''\<rparr>,
                      caps = None\<rparr>) Handler)))) ''app#v1'' ''ext1'' \<noteq> None \<and>
   iqRequests
     (snd (app (IQ \<lparr>iq_id = Some ''caps-2'', iq_type = Some ''error'', iq_query = None,
                 capabilities = None\<rparr>)
         (snd (app (Presence \<lparr>from_jid = ''p1'',
                      c_child = Some \<lparr>a_node = Some ''app'', a_ver = Some ''v1'',
                                      a_hash = None, a_ext = Some ''ext1''\<rparr>,
                      caps = None\<rparr>) Handler)))) ''caps-2'' \<noteq> None"
  by (simp add: app_def handlePresence_def handleIQ_def scenario_defs)

section \<open>Registration of an announcement\<close>

lemma forEach_single: "forEach f [x] s = f x s"
  by (cases "f x s") (auto split: option.splits)

lemma getCapabilitiesFromPresence_result:
  assumes "caps p = Some c"
  shows "Handler_getCapabilitiesFromPresence p s =
     (None,
      (case pending s (fullNode_of c) of
         Some pp \<Rightarrow>
           s\<lparr>pending := (pending s)
                (fullNode_of c \<mapsto> pp\<lparr>buddies := buddies pp @ [from_jid p]\<rparr>)\<rparr>
       | None \<Rightarrow>
           s\<lparr>pending := (pending s)
                (fullNode_of c \<mapsto> \<lparr>p_node = c_node c, p_ver = c_ver c, buddies = [from_jid p]\<rparr>),
             iqRequests := (iqRequests s)
                (''caps-'' @ dec (js_succ (iqCount s)) \<mapsto>
                   \<lparr>r_type = ''caps'', r_ext = None, r_node = c_node c, r_ver = c_ver c,
                    r_fullNode = Some (fullNode_of c)\<rparr>),
             iqCount := js_succ (iqCount s),
             sent := sent s @ [\<lparr>to_jid = from_jid p,
                               sent_id = ''caps-'' @ dec (js_succ (iqCount s)),
                               sent_node = fullNode_of c\<rparr>]\<rparr>))"
  using assms
  by (simp add: Handler_getCapabilitiesFromPresence_def Handler_sendDiscoQuery_def Let_def
      split: option.splits)

lemma getExtensionFromPresence_result:
  assumes "caps p = Some c" and "pendingExt s (fullNode_of c) = Some pm"
    and "pendingBuddies s (from_jid p) = Some b" and "pm e \<noteq> None \<or> \<not> inherited e"
  shows "Handler_getExtensionFromPresence p e s =
     (None,
      (case pm e of
         Some a \<Rightarrow>
           s\<lparr>refArrays := (refArrays s)(a := refArrays s a @ [Some b]),
             buddyObjs := (buddyObjs s)
                (b := (buddyObjs s b)\<lparr>pendingExts := pendingExts (buddyObjs s b) @ [a]\<rparr>)\<rparr>
       | None \<Rightarrow>
           s\<lparr>refArrays := (refArrays s)(heapTop s := [Some b]),
             buddyObjs := (buddyObjs s)
                (b := (buddyObjs s b)\<lparr>pendingExts := pendingExts (buddyObjs s b) @ [heapTop s]\<rparr>),
             heapTop := Suc (heapTop s),
             pendingExt := (pendingExt s)(fullNode_of c \<mapsto> pm(e \<mapsto> heapTop s)),
             iqRequests := (iqRequests s)
                (''caps-'' @ dec (js_succ (iqCount s)) \<mapsto>
                   \<lparr>r_type = ''ext'', r_ext = Some e, r_node = c_node c, r_ver = c_ver c,
                    r_fullNode = Some (fullNode_of c)\<rparr>),
             iqCount := js_succ (iqCount s),
             sent := sent s @ [\<lparr>to_jid = from_jid p,
                               sent_id = ''caps-'' @ dec (js_succ (iqCount s)),
                               sent_node = js_str (c_node c) @ ''#'' @ e\<rparr>]\<rparr>))"
  using assms
  by (auto simp add: Handler_getExtensionFromPresence_def Handler_sendDiscoQuery_def
      new_refArray_def Let_def split: option.splits)

lemma getExtensionFromPresence_inherited:
  assumes "caps p = Some c" and "pendingExt s (fullNode_of c) = Some pm"
    and "pm e = None" and "inherited e"
  shows "Handler_getExtensionFromPresence p e s = (Some TypeError, s)"
  using assms by (simp add: Handler_getExtensionFromPresence_def Let_def)

lemma handlePresence_slow:
  assumes "caps p = Some c" and "\<not> (cache s (fullNode_of c) \<noteq> None \<and> uncachedExts c s = [])"
  shows "Handler_handlePresence p s =
     (let s2 = s\<lparr>buddyObjs := (buddyObjs s)
                   (heapTop s := \<lparr>jid = from_jid p, pendingExts = [], originalPresence = p\<rparr>),
                 heapTop := Suc (heapTop s),
                 pendingBuddies := (pendingBuddies s)(from_jid p \<mapsto> heapTop s)\<rparr>;
          l = (if cache s (fullNode_of c) = None
               then Handler_getCapabilitiesFromPresence p s2 else (None, s2))
      in if fst l = None
         then if uncachedExts c s \<noteq> []
              then forEach (Handler_getExtensionFromPresence p) (uncachedExts c s)
                     (case pendingExt (snd l) (fullNode_of c) of
                        None \<Rightarrow> (snd l)\<lparr>pendingExt := (pendingExt (snd l))
                                               (fullNode_of c \<mapsto> (\<lambda>_. None))\<rparr>
                      | Some _ \<Rightarrow> snd l)
              else (None, snd l)
         else l)"
  using assms
  by (auto simp add: Handler_handlePresence_def Let_def res_case new_buddy_def
      cong: if_cong option.case_cong)

section \<open>A presence without an ext attribute\<close>

lemma handlePresence_no_ext:
  assumes "c_child stanza = Some c" and "a_ext c = None"
  shows "handlePresence stanza =
     stanza\<lparr>caps := Some \<lparr>c_node = a_node c, c_ver = a_ver c, c_hash = a_hash c,
                         c_ext = Some [[]]\<rparr>\<rparr>"
  using assms by (simp add: handlePresence_def)

lemma uncachedExts_empty_name:
  assumes "c_ext ci = Some [[]]"
  shows "uncachedExts ci s = (if ext_cached s (fullNode_of ci) [] then [] else [[]])"
  using assms by (auto simp: uncachedExts_def ext_cached_def split: option.splits)

lemma slow_path_empty_extension:
  assumes "caps p = Some ci" and "c_ext ci = Some [[]]"
    and "\<not> (ext_cached s (fullNode_of ci) [] \<and> cache s (fullNode_of ci) \<noteq> None)"
  shows "fst (Handler_handlePresence p s) = None \<and>
         emitted (snd (Handler_handlePresence p s)) = emitted s \<and>
         pendingBuddies (snd (Handler_handlePresence p s)) =
           (pendingBuddies s)(from_jid p \<mapsto> heapTop s) \<and>
         sent (snd (Handler_handlePresence p s)) =
           sent s @
           (if cache s (fullNode_of ci) = None \<and> pending s (fullNode_of ci) = None
            then [\<lparr>to_jid = from_jid p, sent_id = ''caps-'' @ dec (js_succ (iqCount s)),
                   sent_node = fullNode_of ci\<rparr>]
            else []) @
           (if \<not> ext_cached s (fullNode_of ci) [] \<and> pendingExt_at s (fullNode_of ci) [] = None
            then [\<lparr>to_jid = from_jid p,
                   sent_id = ''caps-'' @ dec
                     (js_succ (if cache s (fullNode_of ci) = None \<and> pending s (fullNode_of ci) = None
                               then js_succ (iqCount s) else iqCount s)),
                   sent_node = js_str (c_node ci) @ ''#''\<rparr>]
            else [])"
proof -
  define F where "F = fullNode_of ci"
  define s2 where "s2 = s\<lparr>buddyObjs := (buddyObjs s)
                   (heapTop s := \<lparr>jid = from_jid p, pendingExts = [], originalPresence = p\<rparr>),
                 heapTop := Suc (heapTop s),
                 pendingBuddies := (pendingBuddies s)(from_jid p \<mapsto> heapTop s)\<rparr>"
  define l where "l = (if cache s F = None
               then Handler_getCapabilitiesFromPresence p s2 else (None, s2))"
  define s3 where "s3 = snd l"
  define s4 where "s4 = (case pendingExt s3 F of
                    None \<Rightarrow> s3\<lparr>pendingExt := (pendingExt s3)(F \<mapsto> (\<lambda>_. None))\<rparr>
                  | Some _ \<Rightarrow> s3)"
  define main where "main = (cache s F = None \<and> pending s F = None)"
  have u: "uncachedExts ci s = (if ext_cached s F [] then [] else [[]])"
    using assms(2) by (simp add: uncachedExts_empty_name F_def)
  have slow: "\<not> (cache s (fullNode_of ci) \<noteq> None \<and> uncachedExts ci s = [])"
    using assms(3) u by (auto simp: F_def)
  have l: "fst l = None"
    by (simp add: l_def getCapabilitiesFromPresence_result[OF assms(1)])
  have s3: "emitted s3 = emitted s" "pendingBuddies s3 = (pendingBuddies s)(from_jid p \<mapsto> heapTop s)"
    "sent s3 = sent s @ (if main
            then [\<lparr>to_jid = from_jid p, sent_id = ''caps-'' @ dec (js_succ (iqCount s)),
                   sent_node = F\<rparr>] else [])"
    "iqCount s3 = (if main then js_succ (iqCount s) else iqCount s)"
    "pendingExt s3 = pendingExt s"
    by (auto simp: s3_def l_def s2_def main_def F_def
        getCapabilitiesFromPresence_result[OF assms(1)] split: option.splits)
  note raw = handlePresence_slow[OF assms(1) slow, unfolded Let_def]
  have res: "Handler_handlePresence p s =
         (if uncachedExts ci s \<noteq> []
          then forEach (Handler_getExtensionFromPresence p) (uncachedExts ci s) s4
          else (None, s3))"
  proof -
    have "Handler_handlePresence p s =
         (if fst l = None
          then if uncachedExts ci s \<noteq> []
               then forEach (Handler_getExtensionFromPresence p) (uncachedExts ci s) s4
               else (None, s3)
          else l)"
      unfolding s4_def s3_def l_def s2_def F_def by (rule raw)
    then show ?thesis using l by simp
  qed
  show ?thesis
  proof (cases "ext_cached s F []")
    case True
    then have "Handler_handlePresence p s = (None, s3)" using res u by simp
    then show ?thesis using s3 True by (simp add: main_def F_def)
  next
    case False
    obtain pm where pm: "pendingExt s4 F = Some pm"
      and pme: "pm [] = pendingExt_at s F []"
      by (cases "pendingExt s F") (auto simp: s4_def s3 pendingExt_at_def)
    have b4: "pendingBuddies s4 (from_jid p) = Some (heapTop s)"
      by (simp add: s4_def s3 split: option.splits)
    have s4: "emitted s4 = emitted s" "pendingBuddies s4 = pendingBuddies s3"
      "sent s4 = sent s3" "iqCount s4 = iqCount s3"
      by (simp_all add: s4_def s3 split: option.splits)
    have r: "Handler_handlePresence p s = Handler_getExtensionFromPresence p [] s4"
      using res u False by (simp add: forEach_single del: forEach.simps)
    note x = getExtensionFromPresence_result[OF assms(1) pm[unfolded F_def] b4, of "[]"]
    show ?thesis
      unfolding r
      using False pme s3 s4 by (auto simp: x main_def F_def split: option.splits)
  qed
qed

lemma fast_path_empty_extension:
  assumes "caps p = Some ci" and "c_ext ci = Some [[]]"
    and "ext_cached s (fullNode_of ci) []" and "cache s (fullNode_of ci) \<noteq> None"
  shows "fst (Handler_handlePresence p s) = None \<and>
         emitted (snd (Handler_handlePresence p s)) = emitted s @ [(from_jid p, Suc (heapTop s))] \<and>
         pendingBuddies (snd (Handler_handlePresence p s)) = pendingBuddies s \<and>
         sent (snd (Handler_handlePresence p s)) = sent s"
proof -
  have u: "uncachedExts ci s = []" using assms(2,3) by (simp add: uncachedExts_empty_name)
  have h: "Handler_handlePresence p s = Handler_emitCapabilitiesEvent p s"
    using assms(1,4) u by (simp add: Handler_handlePresence_def Let_def)
  have f: "sent (snd (Handler_emitCapabilitiesEvent p s)) = sent s"
    "pendingBuddies (snd (Handler_emitCapabilitiesEvent p s)) = pendingBuddies s"
    using emitCapabilitiesEvent_only_emits[of s p] by (simp_all add: only_emits_def)
  have e: "fst (Handler_emitCapabilitiesEvent p s) = None \<and>
    emitted (snd (Handler_emitCapabilitiesEvent p s)) = emitted s @ [(from_jid p, Suc (heapTop s))]"
    using assms
    by (auto simp: Handler_emitCapabilitiesEvent_def deepClone_def new_strArray_def
        new_capsObj_def add_extension_def removeDuplicates_def ext_cached_def Let_def
        split: option.splits)
  show ?thesis using h f e by simp
qed

text \<open>
  Claim C10, as amended. For a presence stanza whose \<^verbatim>\<open>c\<close> child has no \<^verbatim>\<open>ext\<close>
  attribute the parser sets \<^verbatim>\<open>caps.ext\<close> to the one-element list of the empty string,
  and the handler treats the empty string as an extension of the peer. Unless both the
  main capability set and an extension of that name are cached under the fingerprint, the
  announcement takes the slow path: no event, the peer is entered in the ledger, a main
  query is sent if the fingerprint is neither cached nor pending, and an extension query
  for the node URI followed by \<^verbatim>\<open>'#'\<close> and the empty extension id is sent if that
  extension is neither cached nor pending, whether or not the main set is cached. With
  both cached the announcement is resolved at once from the caches, without a query and
  without an entry in the ledger.
\<close>

theorem presence_without_ext_attribute:
  assumes "c_child stanza = Some c" and "a_ext c = None"
    and "ci = \<lparr>c_node = a_node c, c_ver = a_ver c, c_hash = a_hash c, c_ext = Some [[]]\<rparr>"
    and "iqCount s \<le> 9007199254740992"
  shows "caps (handlePresence stanza) = Some ci \<and>
         fst (app (Presence stanza) s) = None \<and>
         (\<not> (ext_cached s (fullNode_of ci) [] \<and> cache s (fullNode_of ci) \<noteq> None) \<longrightarrow>
            emitted (snd (app (Presence stanza) s)) = emitted s \<and>
            pendingBuddies (snd (app (Presence stanza) s)) =
              (pendingBuddies s)(from_jid stanza \<mapsto> heapTop s) \<and>
            sent (snd (app (Presence stanza) s)) =
              sent s @
              (if cache s (fullNode_of ci) = None \<and> pending s (fullNode_of ci) = None
               then [\<lparr>to_jid = from_jid stanza,
                      sent_id = ''caps-'' @ dec (js_succ (iqCount s)),
                      sent_node = fullNode_of ci\<rparr>]
               else []) @
              (if \<not> ext_cached s (fullNode_of ci) [] \<and>
                  pendingExt_at s (fullNode_of ci) [] = None
               then [\<lparr>to_jid = from_jid stanza,
                      sent_id = ''caps-'' @ dec
                        (js_succ (if cache s (fullNode_of ci) = None \<and>
                                     pending s (fullNode_of ci) = None
                                  then js_succ (iqCount s) else iqCount s)),
                      sent_node = js_str (a_node c) @ ''#''\<rparr>]
               else [])) \<and>
         (ext_cached s (fullNode_of ci) [] \<and> cache s (fullNode_of ci) \<noteq> None \<longrightarrow>
            emitted (snd (app (Presence stanza) s)) =
              emitted s @ [(from_jid stanza, Suc (heapTop s))] \<and>
            pendingBuddies (snd (app (Presence stanza) s)) = pendingBuddies s \<and>
            sent (snd (app (Presence stanza) s)) = sent s)"
proof -
  let ?p = "handlePresence stanza"
  have p: "?p = stanza\<lparr>caps := Some ci\<rparr>"
    using handlePresence_no_ext[OF assms(1,2)] assms(3) by simp
  then have c: "caps ?p = Some ci" and f: "from_jid ?p = from_jid stanza" by simp_all
  have a: "app (Presence stanza) s = Handler_handlePresence ?p s"
    by (simp add: app_def)
  have e: "c_ext ci = Some [[]]" and n: "c_node ci = a_node c" using assms(3) by simp_all
  show ?thesis
  proof (cases "ext_cached s (fullNode_of ci) [] \<and> cache s (fullNode_of ci) \<noteq> None")
    case True
    then show ?thesis
      using fast_path_empty_extension[OF c e, of s] c by (simp add: a f)
  next
    case False
    then show ?thesis
      using slow_path_empty_extension[OF c e False] c by (simp add: a f n)
  qed
qed

lemma scenario_A_caches:
  "cache (run [announcement ''p0'' ''app'' ''v1'' None,
               response ''caps-1'' [Str ''jabber:iq:version'']]) ''app#v1'' \<noteq> None \<and>
   \<not> ext_cached (run [announcement ''p0'' ''app'' ''v1'' None,
               response ''caps-1'' [Str ''jabber:iq:version'']]) ''app#v1'' [] \<and>
   pendingExt_at (run [announcement ''p0'' ''app'' ''v1'' None,
               response ''caps-1'' [Str ''jabber:iq:version'']]) ''app#v1'' [] = None \<and>
   iqCount (run [announcement ''p0'' ''app'' ''v1'' None,
               response ''caps-1'' [Str ''jabber:iq:version'']]) = Suc 0 \<and>
   sent (run [announcement ''p0'' ''app'' ''v1'' None,
               response ''caps-1'' [Str ''jabber:iq:version'']]) =
     [\<lparr>to_jid = ''p0'', sent_id = ''caps-1'', sent_node = ''app#v1''\<rparr>]"
  by (simp add: scenario_defs)

theorem presence_without_ext_attribute_witness:
  "caps (handlePresence \<lparr>from_jid = ''p1'',
           c_child = Some \<lparr>a_node = Some ''app'', a_ver = Some ''v1'', a_hash = None,
                           a_ext = None\<rparr>, caps = None\<rparr>) =
     Some \<lparr>c_node = Some ''app'', c_ver = Some ''v1'', c_hash = None, c_ext = Some [[]]\<rparr> \<and>
   emitted (snd (app (Presence \<lparr>from_jid = ''p1'',
           c_child = Some \<lparr>a_node = Some ''app'', a_ver = Some ''v1'', a_hash = None,
                           a_ext = None\<rparr>, caps = None\<rparr>)
        (run [announcement ''p0'' ''app'' ''v1'' None,
              response ''caps-1'' [Str ''jabber:iq:version'']]))) =
     emitted (run [announcement ''p0'' ''app'' ''v1'' None,
                   response ''caps-1'' [Str ''jabber:iq:version'']]) \<and>
   sent (snd (app (Presence \<lparr>from_jid = ''p1'',
           c_child = Some \<lparr>a_node = Some ''app'', a_ver = Some ''v1'', a_hash = None,
                           a_ext = None\<rparr>, caps = None\<rparr>)
        (run [announcement ''p0'' ''app'' ''v1'' None,
              response ''caps-1'' [Str ''jabber:iq:version'']]))) =
     [\<lparr>to_jid = ''p0'', sent_id = ''caps-1'', sent_node = ''app#v1''\<rparr>,
      \<lparr>to_jid = ''p1'', sent_id = ''caps-2'', sent_node = ''app#''\<rparr>] \<and>
   sent (snd (app (Presence \<lparr>from_jid = ''p1'',
           c_child = Some \<lparr>a_node = Some ''app'', a_ver = Some ''v1'', a_hash = None,
                           a_ext = None\<rparr>, caps = None\<rparr>) Handler)) =
     [\<lparr>to_jid = ''p1'', sent_id = ''caps-1'', sent_node = ''app#v1''\<rparr>,
      \<lparr>to_jid = ''p1'', sent_id = ''caps-2'', sent_node = ''app#''\<rparr>]"
  using presence_without_ext_attribute
    [of "\<lparr>from_jid = ''p1'',
           c_child = Some \<lparr>a_node = Some ''app'', a_ver = Some ''v1'', a_hash = None,
                           a_ext = None\<rparr>, caps = None\<rparr>"
        "\<lparr>a_node = Some ''app'', a_ver = Some ''v1'', a_hash = None, a_ext = None\<rparr>"
        "\<lparr>c_node = Some ''app'', c_ver = Some ''v1'', c_hash = None, c_ext = Some [[]]\<rparr>"
        "run [announcement ''p0'' ''app'' ''v1'' None,
              response ''caps-1'' [Str ''jabber:iq:version'']]"]
    presence_without_ext_attribute
    [of "\<lparr>from_jid = ''p1'',
           c_child = Some \<lparr>a_node = Some ''app'', a_ver = Some ''v1'', a_hash = None,
                           a_ext = None\<rparr>, caps = None\<rparr>"
        "\<lparr>a_node = Some ''app'', a_ver = Some ''v1'', a_hash = None, a_ext = None\<rparr>"
        "\<lparr>c_node = Some ''app'', c_ver = Some ''v1'', c_hash = None, c_ext = Some [[]]\<rparr>"
        "Handler"]
    scenario_A_caches
  by (simp add: fullNode_of_def js_str_def Handler_def ext_cached_def pendingExt_at_def)

text \<open>
  Claim C10 as stated fails: the slow path and the extension query are not taken by every
  such presence. Once the extension with the empty name is cached under \<^verbatim>\<open>app#v1\<close>
  (here by the answers to the two queries that the announcement of \<^verbatim>\<open>p0\<close> caused),
  the presence of \<^verbatim>\<open>p1\<close> without \<^verbatim>\<open>ext\<close> attribute is resolved at once: the event
  for \<^verbatim>\<open>p1\<close> is emitted, no query is sent and \<^verbatim>\<open>p1\<close> gets no entry in the ledger.
\<close>

theorem presence_without_ext_attribute_counterexample:
  "emitted_jids (run [announcement ''p0'' ''app'' ''v1'' (Some [[]]),
                      response ''caps-1'' [Str ''jabber:iq:version''],
                      response ''caps-2'' [Str ''urn:xmpp:bob'']]) = [''p0''] \<and>
   map sent_id (sent (run [announcement ''p0'' ''app'' ''v1'' (Some [[]]),
                      response ''caps-1'' [Str ''jabber:iq:version''],
                      response ''caps-2'' [Str ''urn:xmpp:bob'']])) = [''caps-1'', ''caps-2''] \<and>
   emitted_jids (snd (app (Presence \<lparr>from_jid = ''p1'',
           c_child = Some \<lparr>a_node = Some ''app'', a_ver = Some ''v1'', a_hash = None,
                           a_ext = None\<rparr>, caps = None\<rparr>)
        (run [announcement ''p0'' ''app'' ''v1'' (Some [[]]),
              response ''caps-1'' [Str ''jabber:iq:version''],
              response ''caps-2'' [Str ''urn:xmpp:bob'']]))) = [''p0'', ''p1''] \<and>
   map sent_id (sent (snd (app (Presence \<lparr>from_jid = ''p1'',
           c_child = Some \<lparr>a_node = Some ''app'', a_ver = Some ''v1'', a_hash = None,
                           a_ext = None\<rparr>, caps = None\<rparr>)
        (run [announcement ''p0'' ''app'' ''v1'' (Some [[]]),
              response ''caps-1'' [Str ''jabber:iq:version''],
              response ''caps-2'' [Str ''urn:xmpp:bob'']])))) = [''caps-1'', ''caps-2''] \<and>
   pendingBuddies (snd (app (Presence \<lparr>from_jid = ''p1'',
           c_child = Some \<lparr>a_node = Some ''app'', a_ver = Some ''v1'', a_hash = None,
                           a_ext = None\<rparr>, caps = None\<rparr>)
        (run [announcement ''p0'' ''app'' ''v1'' (Some [[]]),
              response ''caps-1'' [Str ''jabber:iq:version''],
              response ''caps-2'' [Str ''urn:xmpp:bob'']]))) ''p1'' = None"
  by (simp add: app_def handlePresence_def scenario_defs)

section \<open>Routing of responses\<close>

lemma handleIQCaps_caches:
  "cache (snd (Handler_handleIQCaps st r s)) =
     (cache s)(js_str (r_fullNode r) := capabilities st) \<and>
   extCache (snd (Handler_handleIQCaps st r s)) = extCache s"
proof -
  define s1 where "s1 = s\<lparr>cache := (cache s)(js_str (r_fullNode r) := capabilities st)\<rparr>"
  have "\<And>js. cache (snd (forEach Handler_emitEventIfFullyLoaded js s1)) = cache s1 \<and>
             extCache (snd (forEach Handler_emitEventIfFullyLoaded js s1)) = extCache s1"
    using emitEventIfFullyLoaded_loop_resolves[of s1] by (simp add: only_resolves_def)
  then show ?thesis
    by (simp add: Handler_handleIQCaps_def Let_def s1_def[symmetric] res_case split: option.splits)
       (simp add: s1_def)
qed

lemma resolve_buddy_loop_caches:
  "cache (snd (forEach (resolve_buddy a) xs t)) = cache t \<and>
   extCache (snd (forEach (resolve_buddy a) xs t)) = extCache t"
  using resolve_buddy_loop_resolves[of t a xs] by (simp add: only_resolves_def)

lemma handleIQExt_cache: "cache (snd (Handler_handleIQExt st r s)) = cache s"
  by (simp add: Handler_handleIQExt_def Let_def res_case resolve_buddy_loop_caches
      split: option.splits)

lemma handleIQExt_extCache_elsewhere:
  assumes "n \<noteq> js_str (r_fullNode r) \<or> e \<noteq> js_str (r_ext r)"
  shows "extCache_at (snd (Handler_handleIQExt st r s)) n e = extCache_at s n e"
  using assms
  by (auto simp: Handler_handleIQExt_def Let_def res_case resolve_buddy_loop_caches
      extCache_at_def split: option.splits)

lemma handleIQExt_extCache_written:
  assumes "capabilities st = Some cr" and "pendingExt s (js_str (r_fullNode r)) \<noteq> None"
  shows "extCache_at (snd (Handler_handleIQExt st r s)) (js_str (r_fullNode r)) (js_str (r_ext r)) =
           Some (rawFeatures (capsObjs s cr))"
  using assms
  by (auto simp: Handler_handleIQExt_def Let_def res_case resolve_buddy_loop_caches
      extCache_at_def split: option.splits)

text \<open>
  Claim C9. Which cache entry a response writes is fixed by the request recorded under its
  id at send time, whatever the stanza carries. For a main request the stanza's capability
  object (or \<^verbatim>\<open>undefined\<close>) is stored in \<^verbatim>\<open>_cache\<close> under the recorded fingerprint
  and \<^verbatim>\<open>_extCache\<close> is untouched. For an extension request \<^verbatim>\<open>_cache\<close> is untouched,
  no entry of \<^verbatim>\<open>_extCache\<close> other than the one of the recorded fingerprint and
  extension changes, and a stanza that carries a capability object has that object's raw
  feature array stored there. The node that the response echoes is never read.
\<close>

theorem routing_by_correlation_id:
  assumes "iqRequests s (js_str (iq_id st)) = Some r"
  shows "(r_type r \<noteq> ''ext'' \<longrightarrow>
            cache (snd (Handler_handleIQ st s)) =
              (cache s)(js_str (r_fullNode r) := capabilities st) \<and>
            extCache (snd (Handler_handleIQ st s)) = extCache s) \<and>
         (r_type r = ''ext'' \<longrightarrow>
            cache (snd (Handler_handleIQ st s)) = cache s \<and>
            (\<forall>n e. n \<noteq> js_str (r_fullNode r) \<or> e \<noteq> js_str (r_ext r) \<longrightarrow>
               extCache_at (snd (Handler_handleIQ st s)) n e = extCache_at s n e) \<and>
            (\<forall>cr. capabilities st = Some cr \<and> pendingExt s (js_str (r_fullNode r)) \<noteq> None \<longrightarrow>
               extCache_at (snd (Handler_handleIQ st s)) (js_str (r_fullNode r)) (js_str (r_ext r)) =
                 Some (rawFeatures (capsObjs s cr))))"
proof (cases "r_type r = ''ext''")
  case True
  have h: "snd (Handler_handleIQ st s) = snd (Handler_handleIQExt st r s) \<or>
           snd (Handler_handleIQ st s) =
             (snd (Handler_handleIQExt st r s))
               \<lparr>iqRequests := (iqRequests (snd (Handler_handleIQExt st r s)))
                  (js_str (iq_id st) := None)\<rparr>"
    using assms True by (simp add: Handler_handleIQ_def Let_def res_case)
  have x: "\<And>t n e. extCache_at (t\<lparr>iqRequests := (iqRequests t)(js_str (iq_id st) := None)\<rparr>) n e
             = extCache_at t n e"
    by (simp add: extCache_at_def)
  show ?thesis
    using True h handleIQExt_cache[of st r s] handleIQExt_extCache_elsewhere[of _ r _ st s]
      handleIQExt_extCache_written[of st _ s r]
    by (auto simp: x)
next
  case False
  have h: "snd (Handler_handleIQ st s) = snd (Handler_handleIQCaps st r s) \<or>
           snd (Handler_handleIQ st s) =
             (snd (Handler_handleIQCaps st r s))
               \<lparr>iqRequests := (iqRequests (snd (Handler_handleIQCaps st r s)))
                  (js_str (iq_id st) := None)\<rparr>"
    using assms False by (simp add: Handler_handleIQ_def Let_def res_case)
  show ?thesis
    using False h handleIQCaps_caches[of st r s] by auto
qed

lemma scenario_ext_requests:
  "iqRequests (run [announcement ''p1'' ''app'' ''v1'' (Some [''ext1''])]) ''caps-1'' =
     Some \<lparr>r_type = ''caps'', r_ext = None, r_node = Some ''app'', r_ver = Some ''v1'',
           r_fullNode = Some ''app#v1''\<rparr> \<and>
   iqRequests (run [announcement ''p1'' ''app'' ''v1'' (Some [''ext1''])]) ''caps-2'' =
     Some \<lparr>r_type = ''ext'', r_ext = Some ''ext1'', r_node = Some ''app'', r_ver = Some ''v1'',
           r_fullNode = Some ''app#v1''\<rparr> \<and>
   pendingExt (run [announcement ''p1'' ''app'' ''v1'' (Some [''ext1''])]) ''app#v1'' \<noteq> None"
  by (simp add: scenario_defs)

theorem routing_by_correlation_id_witness:
  "cache (snd (Handler_handleIQ
       \<lparr>iq_id = Some ''caps-1'', iq_type = Some ''result'', iq_query = None,
        capabilities = Some 5\<rparr>
       (run [announcement ''p1'' ''app'' ''v1'' (Some [''ext1''])]))) =
     (cache (run [announcement ''p1'' ''app'' ''v1'' (Some [''ext1''])]))(''app#v1'' \<mapsto> 5) \<and>
   extCache_at (snd (Handler_handleIQ
       \<lparr>iq_id = Some ''caps-2'', iq_type = Some ''result'', iq_query = None,
        capabilities = Some 5\<rparr>
       (run [announcement ''p1'' ''app'' ''v1'' (Some [''ext1''])]))) ''app#v1'' ''ext1'' =
     Some (rawFeatures (capsObjs (run [announcement ''p1'' ''app'' ''v1'' (Some [''ext1''])]) 5))"
  using routing_by_correlation_id
    [of "run [announcement ''p1'' ''app'' ''v1'' (Some [''ext1''])]"
        "\<lparr>iq_id = Some ''caps-1'', iq_type = Some ''result'', iq_query = None,
         capabilities = Some 5\<rparr>"
        "\<lparr>r_type = ''caps'', r_ext = None, r_node = Some ''app'', r_ver = Some ''v1'',
         r_fullNode = Some ''app#v1''\<rparr>"]
    routing_by_correlation_id
    [of "run [announcement ''p1'' ''app'' ''v1'' (Some [''ext1''])]"
        "\<lparr>iq_id = Some ''caps-2'', iq_type = Some ''result'', iq_query = None,
         capabilities = Some 5\<rparr>"
        "\<lparr>r_type = ''ext'', r_ext = Some ''ext1'', r_node = Some ''app'', r_ver = Some ''v1'',
         r_fullNode = Some ''app#v1''\<rparr>"]
    scenario_ext_requests
  by (simp add: js_str_def)

section \<open>The merge\<close>

lemma add_extension_content:
  assumes cp: "clone_progress s m t" and ok: "caps_heap_ok s" and x: "extCache s n = Some mm"
  shows "fst (add_extension m n e t) = None \<and>
         clone_progress s m (snd (add_extension m n e t)) \<and>
         strArrays (snd (add_extension m n e t))
             (rawFeatures (capsObjs (snd (add_extension m n e t)) m)) =
           strArrays t (rawFeatures (capsObjs t m)) @ ext_features s n e \<and>
         (capsObjs (snd (add_extension m n e t)) m)\<lparr>rawFeatures := 0\<rparr> =
           (capsObjs t m)\<lparr>rawFeatures := 0\<rparr>"
proof -
  have xt: "extCache t n = Some mm" using cp x by (simp add: clone_progress_def only_emits_def)
  have arg: "(case mm e of None \<Rightarrow> if inherited e then [member e] else [Undefined]
               | Some a \<Rightarrow> strArrays t a) = ext_features s n e"
  proof (cases "mm e")
    case None
    then show ?thesis using x by (simp add: ext_features_def)
  next
    case (Some a)
    then have "a < heapTop s" using ok x by (auto simp: caps_heap_ok_def)
    then have "strArrays t a = strArrays s a"
      using cp by (simp add: clone_progress_def only_emits_def)
    then show ?thesis using Some x by (simp add: ext_features_def)
  qed
  show ?thesis
    using add_extension_progress[OF cp, of n e] xt arg
    by (simp add: add_extension_def new_strArray_def Let_def)
qed

lemma add_extension_loop_content:
  assumes "clone_progress s m t" and "caps_heap_ok s" and "extCache s n = Some mm"
  shows "fst (forEach (add_extension m n) es t) = None \<and>
         clone_progress s m (snd (forEach (add_extension m n) es t)) \<and>
         strArrays (snd (forEach (add_extension m n) es t))
             (rawFeatures (capsObjs (snd (forEach (add_extension m n) es t)) m)) =
           strArrays t (rawFeatures (capsObjs t m)) @ concat (map (ext_features s n) es) \<and>
         (capsObjs (snd (forEach (add_extension m n) es t)) m)\<lparr>rawFeatures := 0\<rparr> =
           (capsObjs t m)\<lparr>rawFeatures := 0\<rparr>"
  using assms(1)
proof (induction es arbitrary: t)
  case Nil
  then show ?case by simp
next
  case (Cons e es)
  let ?u = "snd (add_extension m n e t)"
  from add_extension_content[OF Cons.prems assms(2,3), of e]
  have n: "fst (add_extension m n e t) = None" and cp: "clone_progress s m ?u"
    and c: "strArrays ?u (rawFeatures (capsObjs ?u m)) =
              strArrays t (rawFeatures (capsObjs t m)) @ ext_features s n e"
    and o: "(capsObjs ?u m)\<lparr>rawFeatures := 0\<rparr> = (capsObjs t m)\<lparr>rawFeatures := 0\<rparr>"
    by simp_all
  have f: "forEach (add_extension m n) (e # es) t = forEach (add_extension m n) es ?u"
    using n by (cases "add_extension m n e t") simp
  show ?case
    unfolding f using Cons.IH[OF cp] c o by simp
qed

lemma emitCapabilitiesEvent_result:
  assumes em: "emittable p c r s" and ok: "caps_heap_ok s"
  defines "s' \<equiv> snd (Handler_emitCapabilitiesEvent p s)"
  defines "m \<equiv> Suc (heapTop s)"
  defines "merged \<equiv> merged_rawFeatures c r s"
  shows "Handler_emitCapabilitiesEvent p s = (None, s') \<and>
         emitted s' = emitted s @ [(from_jid p, m)] \<and>
         strArrays s' (rawFeatures (capsObjs s' m)) =
           removeDuplicates_loop (length merged) [] merged \<and>
         features (capsObjs s' m) =
           parseCommonFeatures (removeDuplicates_loop (length merged) [] merged) \<and>
         node (capsObjs s' m) = node (capsObjs s r) \<and>
         clientName (capsObjs s' m) = clientName (capsObjs s r)"
proof -
  from em have c: "caps p = Some c" and r: "cache s (fullNode_of c) = Some r"
    and x: "exts_of c \<noteq> [] \<longrightarrow> extCache s (fullNode_of c) \<noteq> None"
    by (simp_all add: emittable_def)
  define t where "t = snd (snd (deepClone (Some r) s))"
  have dc: "deepClone (Some r) s = (None, (m, t))"
    by (simp add: deepClone_def new_strArray_def new_capsObj_def Let_def t_def m_def)
  from deepClone_progress[OF dc] have cp: "clone_progress s m t" by (simp add: m_def)
  have t_arr: "strArrays t (rawFeatures (capsObjs t m)) =
      map json_elem (strArrays s (rawFeatures (capsObjs s r)))"
    and t_obj: "(capsObjs t m)\<lparr>rawFeatures := 0\<rparr> = (capsObjs s r)\<lparr>rawFeatures := 0\<rparr>"
    by (simp_all add: t_def m_def deepClone_def new_strArray_def new_capsObj_def Let_def)
  define u where "u = (case c_ext c of None \<Rightarrow> (None, t)
      | Some exts \<Rightarrow> forEach (add_extension m (fullNode_of c)) exts t)"
  have u: "fst u = None \<and> clone_progress s m (snd u) \<and>
      strArrays (snd u) (rawFeatures (capsObjs (snd u) m)) = merged \<and>
      (capsObjs (snd u) m)\<lparr>rawFeatures := 0\<rparr> = (capsObjs s r)\<lparr>rawFeatures := 0\<rparr>"
  proof (cases "c_ext c")
    case None
    then show ?thesis using cp t_arr t_obj
      by (simp add: u_def merged_def merged_rawFeatures_def exts_of_def)
  next
    case (Some exts)
    show ?thesis
    proof (cases "exts = []")
      case True
      then show ?thesis using Some cp t_arr t_obj
        by (simp add: u_def merged_def merged_rawFeatures_def exts_of_def)
    next
      case False
      then obtain mm where mm: "extCache s (fullNode_of c) = Some mm"
        using x Some by (auto simp: exts_of_def)
      from add_extension_loop_content[OF cp ok mm, of exts]
      show ?thesis using Some t_arr t_obj
        by (simp add: u_def merged_def merged_rawFeatures_def exts_of_def)
    qed
  qed
  obtain v where uv: "u = (None, v)" using u by (cases u) auto
  have v: "strArrays v (rawFeatures (capsObjs v m)) = merged"
    and vo: "(capsObjs v m)\<lparr>rawFeatures := 0\<rparr> = (capsObjs s r)\<lparr>rawFeatures := 0\<rparr>"
    using u uv by simp_all
  have vn: "node (capsObjs v m) = node (capsObjs s r)"
    and vc: "clientName (capsObjs v m) = clientName (capsObjs s r)"
    using arg_cong[OF vo, of node] arg_cong[OF vo, of clientName] by simp_all
  have res: "Handler_emitCapabilitiesEvent p s =
     (None, (removeDuplicates (rawFeatures (capsObjs v m)) v)
        \<lparr>capsObjs := (capsObjs (removeDuplicates (rawFeatures (capsObjs v m)) v))
           (m := (capsObjs (removeDuplicates (rawFeatures (capsObjs v m)) v) m)
              \<lparr>features := parseCommonFeatures
                 (strArrays (removeDuplicates (rawFeatures (capsObjs v m)) v)
                    (rawFeatures (capsObjs (removeDuplicates (rawFeatures (capsObjs v m)) v) m)))\<rparr>),
          emitted := emitted (removeDuplicates (rawFeatures (capsObjs v m)) v) @ [(from_jid p, m)]\<rparr>)"
    using c r dc uv
    by (simp add: Handler_emitCapabilitiesEvent_def Let_def u_def[symmetric])
  have ev: "emitted v = emitted s"
    using u uv by (simp add: clone_progress_def)
  show ?thesis
    unfolding s'_def res
    using v vn vc ev by (simp add: removeDuplicates_def)
qed

lemma emitCapabilitiesEvent_success:
  assumes "Handler_emitCapabilitiesEvent p s = (None, s1)"
  shows "\<exists>c r. emittable p c r s"
proof (cases "caps p")
  case None
  then show ?thesis using assms by (simp add: Handler_emitCapabilitiesEvent_def)
next
  case (Some c)
  show ?thesis
  proof (cases "cache s (fullNode_of c)")
    case None
    then show ?thesis using assms Some
      by (simp add: Handler_emitCapabilitiesEvent_def deepClone_def)
  next
    case r: (Some r)
    show ?thesis
    proof (cases "exts_of c \<noteq> [] \<and> extCache s (fullNode_of c) = None")
      case False
      then show ?thesis using Some r by (auto simp: emittable_def)
    next
      case True
      then obtain e es where es: "c_ext c = Some (e # es)"
        by (cases "c_ext c"; cases "exts_of c") (auto simp: exts_of_def)
      have "fst (Handler_emitCapabilitiesEvent p s) = Some TypeError"
        using Some r es True
        by (simp add: Handler_emitCapabilitiesEvent_def deepClone_def new_strArray_def
            new_capsObj_def add_extension_def Let_def)
      then show ?thesis using assms by simp
    qed
  qed
qed

lemma caps_heap_ok_frame:
  assumes oe: "only_emits s t" and ok: "caps_heap_ok s"
  shows "caps_heap_ok t"
proof -
  have le: "heapTop s \<le> heapTop t" and c: "cache t = cache s" and x: "extCache t = extCache s"
    and o: "\<And>r. r < heapTop s \<Longrightarrow> capsObjs t r = capsObjs s r"
    using oe by (simp_all add: only_emits_def)
  have 1: "c' < heapTop t \<and> rawFeatures (capsObjs t c') < heapTop t"
    if "cache t n = Some c'" for n c'
  proof -
    from that c have "cache s n = Some c'" by simp
    with ok have "c' < heapTop s" "rawFeatures (capsObjs s c') < heapTop s"
      by (auto simp: caps_heap_ok_def)
    then show ?thesis using le o[of c'] by simp
  qed
  have 2: "a < heapTop t" if "extCache t n = Some m" "m e = Some a" for n m e a
  proof -
    from that x have "extCache s n = Some m" by simp
    with ok that(2) have "a < heapTop s" by (auto simp: caps_heap_ok_def)
    then show ?thesis using le by simp
  qed
  show ?thesis
    unfolding caps_heap_ok_def using 1 2 by blast
qed

lemma merged_rawFeatures_frame:
  assumes oe: "only_emits s t" and ok: "caps_heap_ok s" and r: "cache s (fullNode_of c) = Some r"
  shows "merged_rawFeatures c r t = merged_rawFeatures c r s"
proof -
  have rr: "r < heapTop s" "rawFeatures (capsObjs s r) < heapTop s"
    using ok r by (auto simp: caps_heap_ok_def)
  then have main: "strArrays t (rawFeatures (capsObjs t r)) = strArrays s (rawFeatures (capsObjs s r))"
    using oe by (simp add: only_emits_def)
  have xf: "ext_features t (fullNode_of c) e = ext_features s (fullNode_of c) e" for e
  proof (cases "extCache s (fullNode_of c)")
    case None
    then show ?thesis using oe by (simp add: ext_features_def only_emits_def)
  next
    case (Some mm)
    show ?thesis
    proof (cases "mm e")
      case None
      then show ?thesis using oe Some by (simp add: ext_features_def only_emits_def)
    next
      case a: (Some a)
      then have "a < heapTop s" using ok Some by (auto simp: caps_heap_ok_def)
      then show ?thesis using oe Some a by (simp add: ext_features_def only_emits_def)
    qed
  qed
  then have "ext_features t (fullNode_of c) = ext_features s (fullNode_of c)"
    by (intro ext)
  then show ?thesis
    by (simp add: merged_rawFeatures_def main)
qed

text \<open>
  Claim C8. Let the caches point to allocated objects only, and let
  \<^verbatim>\<open>_emitCapabilitiesEvent\<close> return normally for a presence. Then it returns normally
  again when run a second time, the two events carry capability objects with the same
  \<^verbatim>\<open>features\<close> map and the same raw feature array, and neither run has changed
  \<^verbatim>\<open>_cache\<close>, \<^verbatim>\<open>_extCache\<close> or any capability object or feature array that existed
  before: the merge works on the deep clone and on arrays it has built itself.
\<close>

theorem merge_idempotent_and_read_only:
  assumes ok: "caps_heap_ok s" and e1: "Handler_emitCapabilitiesEvent p s = (None, s1)"
  shows "\<exists>s2 m1 m2.
           Handler_emitCapabilitiesEvent p s1 = (None, s2) \<and>
           emitted s1 = emitted s @ [(from_jid p, m1)] \<and>
           emitted s2 = emitted s1 @ [(from_jid p, m2)] \<and>
           features (capsObjs s2 m2) = features (capsObjs s1 m1) \<and>
           strArrays s2 (rawFeatures (capsObjs s2 m2)) =
             strArrays s1 (rawFeatures (capsObjs s1 m1)) \<and>
           cache s1 = cache s \<and> extCache s1 = extCache s \<and>
           cache s2 = cache s \<and> extCache s2 = extCache s \<and>
           (\<forall>r < heapTop s.
              capsObjs s1 r = capsObjs s r \<and> strArrays s1 r = strArrays s r \<and>
              capsObjs s2 r = capsObjs s r \<and> strArrays s2 r = strArrays s r)"
proof -
  obtain c r where em: "emittable p c r s"
    using emitCapabilitiesEvent_success[OF e1] by blast
  have s1: "s1 = snd (Handler_emitCapabilitiesEvent p s)" using e1 by simp
  have f1: "only_emits s s1"
    unfolding s1 by (rule emitCapabilitiesEvent_only_emits)
  define s2 where "s2 = snd (Handler_emitCapabilitiesEvent p s1)"
  have f2: "only_emits s1 s2"
    unfolding s2_def by (rule emitCapabilitiesEvent_only_emits)
  have f12: "only_emits s s2" using f1 f2 by (rule only_emits_trans)
  have em1: "emittable p c r s1"
    using em f1 by (simp add: emittable_def only_emits_def)
  have ok1: "caps_heap_ok s1" using f1 ok by (rule caps_heap_ok_frame)
  have r: "cache s (fullNode_of c) = Some r" using em by (simp add: emittable_def)
  have mg: "merged_rawFeatures c r s1 = merged_rawFeatures c r s"
    using f1 ok r by (rule merged_rawFeatures_frame)
  note a = emitCapabilitiesEvent_result[OF em ok, folded s1]
  note b = emitCapabilitiesEvent_result[OF em1 ok1, folded s2_def]
  have "Handler_emitCapabilitiesEvent p s1 = (None, s2)" using b by simp
  moreover have "emitted s1 = emitted s @ [(from_jid p, Suc (heapTop s))]" using a by simp
  moreover have "emitted s2 = emitted s1 @ [(from_jid p, Suc (heapTop s1))]" using b by simp
  moreover have "features (capsObjs s2 (Suc (heapTop s1))) = features (capsObjs s1 (Suc (heapTop s)))"
    using a b mg by simp
  moreover have "strArrays s2 (rawFeatures (capsObjs s2 (Suc (heapTop s1)))) =
      strArrays s1 (rawFeatures (capsObjs s1 (Suc (heapTop s))))"
    using a b mg by simp
  moreover have "cache s1 = cache s \<and> extCache s1 = extCache s \<and>
      cache s2 = cache s \<and> extCache s2 = extCache s \<and>
      (\<forall>r < heapTop s.
         capsObjs s1 r = capsObjs s r \<and> strArrays s1 r = strArrays s r \<and>
         capsObjs s2 r = capsObjs s r \<and> strArrays s2 r = strArrays s r)"
    using f1 f12 by (simp add: only_emits_def)
  ultimately show ?thesis by blast
qed

lemma scenario_extension_state:
  "caps_heap_ok (run [announcement ''p0'' ''app'' ''v1'' (Some [''ext1'']),
                      response ''caps-1'' [Str ''a'', Str ''b'', Str ''a''],
                      response ''caps-2'' [Str ''b'', Str ''c'']]) \<and>
   fst (Handler_emitCapabilitiesEvent (peer_presence ''p1'' ''app'' ''v1'' (Some [''ext1'']))
         (run [announcement ''p0'' ''app'' ''v1'' (Some [''ext1'']),
               response ''caps-1'' [Str ''a'', Str ''b'', Str ''a''],
               response ''caps-2'' [Str ''b'', Str ''c'']])) = None \<and>
   ext_features (run [announcement ''p0'' ''app'' ''v1'' (Some [''ext1'']),
                      response ''caps-1'' [Str ''a'', Str ''b'', Str ''a''],
                      response ''caps-2'' [Str ''b'', Str ''c'']]) ''app#v1'' ''ext1'' =
     [Str ''b'', Str ''c'']"
  by (simp add: scenario_defs caps_heap_ok_def ext_features_def)

theorem merge_idempotent_and_read_only_witness:
  "ext_features (run [announcement ''p0'' ''app'' ''v1'' (Some [''ext1'']),
                      response ''caps-1'' [Str ''a'', Str ''b'', Str ''a''],
                      response ''caps-2'' [Str ''b'', Str ''c'']]) ''app#v1'' ''ext1'' =
     [Str ''b'', Str ''c''] \<and>
   (\<exists>s2 m1 m2.
     Handler_emitCapabilitiesEvent (peer_presence ''p1'' ''app'' ''v1'' (Some [''ext1'']))
       (snd (Handler_emitCapabilitiesEvent (peer_presence ''p1'' ''app'' ''v1'' (Some [''ext1'']))
         (run [announcement ''p0'' ''app'' ''v1'' (Some [''ext1'']),
               response ''caps-1'' [Str ''a'', Str ''b'', Str ''a''],
               response ''caps-2'' [Str ''b'', Str ''c'']]))) = (None, s2) \<and>
     emitted s2 =
       emitted (snd (Handler_emitCapabilitiesEvent
         (peer_presence ''p1'' ''app'' ''v1'' (Some [''ext1'']))
         (run [announcement ''p0'' ''app'' ''v1'' (Some [''ext1'']),
               response ''caps-1'' [Str ''a'', Str ''b'', Str ''a''],
               response ''caps-2'' [Str ''b'', Str ''c'']]))) @
       [(from_jid (peer_presence ''p1'' ''app'' ''v1'' (Some [''ext1''])), m2)] \<and>
     features (capsObjs s2 m2) =
       features (capsObjs
         (snd (Handler_emitCapabilitiesEvent
           (peer_presence ''p1'' ''app'' ''v1'' (Some [''ext1'']))
           (run [announcement ''p0'' ''app'' ''v1'' (Some [''ext1'']),
                 response ''caps-1'' [Str ''a'', Str ''b'', Str ''a''],
                 response ''caps-2'' [Str ''b'', Str ''c'']]))) m1) \<and>
     strArrays s2 (rawFeatures (capsObjs s2 m2)) =
       strArrays
         (snd (Handler_emitCapabilitiesEvent
           (peer_presence ''p1'' ''app'' ''v1'' (Some [''ext1'']))
           (run [announcement ''p0'' ''app'' ''v1'' (Some [''ext1'']),
                 response ''caps-1'' [Str ''a'', Str ''b'', Str ''a''],
                 response ''caps-2'' [Str ''b'', Str ''c'']])))
         (rawFeatures (capsObjs
           (snd (Handler_emitCapabilitiesEvent
             (peer_presence ''p1'' ''app'' ''v1'' (Some [''ext1'']))
             (run [announcement ''p0'' ''app'' ''v1'' (Some [''ext1'']),
                   response ''caps-1'' [Str ''a'', Str ''b'', Str ''a''],
                   response ''caps-2'' [Str ''b'', Str ''c'']]))) m1)) \<and>
     cache s2 = cache (run [announcement ''p0'' ''app'' ''v1'' (Some [''ext1'']),
                            response ''caps-1'' [Str ''a'', Str ''b'', Str ''a''],
                            response ''caps-2'' [Str ''b'', Str ''c'']]) \<and>
     extCache s2 = extCache (run [announcement ''p0'' ''app'' ''v1'' (Some [''ext1'']),
                            response ''caps-1'' [Str ''a'', Str ''b'', Str ''a''],
                            response ''caps-2'' [Str ''b'', Str ''c'']]))"
proof -
  let ?s = "run [announcement ''p0'' ''app'' ''v1'' (Some [''ext1'']),
                 response ''caps-1'' [Str ''a'', Str ''b'', Str ''a''],
                 response ''caps-2'' [Str ''b'', Str ''c'']]"
  let ?p = "peer_presence ''p1'' ''app'' ''v1'' (Some [''ext1''])"
  have ok: "caps_heap_ok ?s" and n: "fst (Handler_emitCapabilitiesEvent ?p ?s) = None"
    and x: "ext_features ?s ''app#v1'' ''ext1'' = [Str ''b'', Str ''c'']"
    using scenario_extension_state by simp_all
  have e1: "Handler_emitCapabilitiesEvent ?p ?s = (None, snd (Handler_emitCapabilitiesEvent ?p ?s))"
    using n by (metis prod.collapse)
  from merge_idempotent_and_read_only[OF ok e1] x show ?thesis
    by blast
qed

end
